theory Spec2Isabelle
  imports Complex_Main "HOL-Library.Char_ord" "HOL-Library.List_Lexorder" "HOL-Library.Multiset"
begin

section \<open>Data model of \<open>movie-booking/app.py\<close>\<close>

text \<open>
  The five mapped classes become records; a table is the list of its rows in insertion
  order, and the store is the record of the five tables. Primary keys are positive
  integers handed out by the database (the largest key so far plus one; no row is ever
  deleted, short of dropping all tables). The \<open>DateTime\<close> columns are a count of
  microseconds (an unbounded integer), and text is a list of characters read as code
  points below 256. The two \<open>Float\<close> columns hold real numbers and their arithmetic is
  that of the reals: it agrees with the arithmetic of doubles where the operands and the
  result are whole numbers below \<open>2^53\<close>, as are all prices and totals of the stores
  the application can reach (10, 12 or 14 for at most forty seats); the result on
  booking is stated for those stores.
\<close>

record User =
  User_id :: nat
  User_name :: string
  User_email :: string
  User_password_hash :: string
  User_is_admin :: bool

record Movie =
  Movie_id :: nat
  Movie_title :: string
  Movie_description :: string
  Movie_duration_minutes :: int
  Movie_poster_url :: "string option"

record Showtime =
  Showtime_id :: nat
  Showtime_movie_id :: nat
  Showtime_start_time :: int
  Showtime_ticket_price :: real

record Seat =
  Seat_id :: nat
  Seat_showtime_id :: nat
  Seat_seat_label :: string
  Seat_is_booked :: bool

record Booking =
  Booking_id :: nat
  Booking_user_id :: nat
  Booking_showtime_id :: nat
  Booking_seat_labels :: string
  Booking_total_price :: real
  Booking_booked_at :: int

record store =
  users :: "User list"
  movies :: "Movie list"
  showtimes :: "Showtime list"
  seats :: "Seat list"
  bookings :: "Booking list"

definition empty_store :: store where
  "empty_store = \<lparr>users = [], movies = [], showtimes = [], seats = [], bookings = []\<rparr>"

definition next_id :: "nat list \<Rightarrow> nat" where
  "next_id ids = Suc (fold max ids 0)"

subsection \<open>Requests and responses\<close>

datatype http_method = GET | POST

record request =
  req_method :: http_method
  req_form :: "(string \<times> string) list"
  req_args :: "(string \<times> string) list"

definition form_get :: "(string \<times> string) list \<Rightarrow> string \<Rightarrow> string \<Rightarrow> string" where
  "form_get f k d = (case map_of f k of None \<Rightarrow> d | Some v \<Rightarrow> v)"

definition form_getlist :: "(string \<times> string) list \<Rightarrow> string \<Rightarrow> string list" where
  "form_getlist f k = map snd (filter (\<lambda>kv. fst kv = k) f)"

datatype endpoint =
    EP_home
  | EP_login
  | EP_my_bookings
  | EP_showtime_detail nat
  | EP_url string

datatype view =
    V_index "Movie list"
  | V_movie_detail Movie
  | V_showtime Showtime "(char \<times> Seat list) list"
  | V_bookings "Booking list"
  | V_login
  | V_register "(string \<times> string) option"

text \<open>
  A response carries the messages flashed while the request ran, each with its category.
  \<open>Unauthorized\<close> is what \<open>login_required\<close> answers to an anonymous caller, and
  \<open>InternalError\<close> stands for an uncaught exception of the handler.
\<close>

datatype response =
    Abort404
  | Unauthorized
  | InternalError
  | Redirect "(string \<times> string) list" endpoint
  | Render "(string \<times> string) list" view

subsection \<open>Text helpers\<close>

fun join :: "string \<Rightarrow> string list \<Rightarrow> string" where
  "join sep [] = []"
| "join sep [x] = x"
| "join sep (x # y # ys) = x @ sep @ join sep (y # ys)"

definition isspace :: "char \<Rightarrow> bool" where
  "isspace c = ((of_char c :: nat) \<in> {9, 10, 11, 12, 13, 28, 29, 30, 31, 32, 133, 160})"

definition strip :: "string \<Rightarrow> string" where
  "strip s = rev (dropWhile isspace (rev (dropWhile isspace s)))"

definition lower_char :: "char \<Rightarrow> char" where
  "lower_char c =
     (let n = (of_char c :: nat)
      in if (65 \<le> n \<and> n \<le> 90) \<or> (192 \<le> n \<and> n \<le> 222 \<and> n \<noteq> 215)
         then char_of (n + 32) else c)"

definition lower :: "string \<Rightarrow> string" where
  "lower s = map lower_char s"

subsection \<open>The unit of work\<close>

text \<open>
  A handler that writes works on the pending state of its database session; only
  \<open>commit\<close> makes the pending state the stored one. \<open>run_trace\<close> lists the session
  after each statement of a handler, so that the stored state at any point where the
  process could stop is visible.
\<close>

record session =
  committed :: store
  pending :: store

definition begin_session :: "store \<Rightarrow> session" where
  "begin_session st = \<lparr>committed = st, pending = st\<rparr>"

definition commit :: "session \<Rightarrow> session" where
  "commit s = s\<lparr>committed := pending s\<rparr>"

fun run_trace :: "(session \<Rightarrow> session) list \<Rightarrow> session \<Rightarrow> session list" where
  "run_trace [] s = [s]"
| "run_trace (f # fs) s = s # run_trace fs (f s)"

definition set_is_booked :: "nat \<Rightarrow> session \<Rightarrow> session" where
  "set_is_booked i s =
     s\<lparr>pending := (pending s)\<lparr>seats :=
         map (\<lambda>x. if Seat_id x = i then x\<lparr>Seat_is_booked := True\<rparr> else x) (seats (pending s))\<rparr>\<rparr>"

definition add_booking :: "nat \<Rightarrow> nat \<Rightarrow> string \<Rightarrow> real \<Rightarrow> int \<Rightarrow> session \<Rightarrow> session" where
  "add_booking uid sid labels total_price now s =
     s\<lparr>pending := (pending s)\<lparr>bookings := bookings (pending s) @
         [\<lparr>Booking_id = next_id (map Booking_id (bookings (pending s))),
           Booking_user_id = uid, Booking_showtime_id = sid,
           Booking_seat_labels = labels, Booking_total_price = total_price,
           Booking_booked_at = now\<rparr>]\<rparr>\<rparr>"

subsection \<open>Lookups\<close>

definition load_user :: "store \<Rightarrow> nat \<Rightarrow> User option" where
  "load_user st uid = find (\<lambda>u. User_id u = uid) (users st)"

definition current_user :: "store \<Rightarrow> nat option \<Rightarrow> User option" where
  "current_user st sess = (case sess of None \<Rightarrow> None | Some uid \<Rightarrow> load_user st uid)"

definition get_showtime :: "store \<Rightarrow> nat \<Rightarrow> Showtime option" where
  "get_showtime st sid = find (\<lambda>sh. Showtime_id sh = sid) (showtimes st)"

definition get_movie :: "store \<Rightarrow> nat \<Rightarrow> Movie option" where
  "get_movie st mid = find (\<lambda>m. Movie_id m = mid) (movies st)"

definition user_by_email :: "store \<Rightarrow> string \<Rightarrow> User option" where
  "user_by_email st e = find (\<lambda>u. User_email u = e) (users st)"

definition matched_seats :: "store \<Rightarrow> nat \<Rightarrow> string list \<Rightarrow> Seat list" where
  "matched_seats st sid selected =
     filter (\<lambda>s. Seat_showtime_id s = sid \<and> Seat_seat_label s \<in> set selected) (seats st)"

section \<open>Booking\<close>

text \<open>
  \<open>book_tickets\<close>: \<open>now\<close> is the clock read when the booking row is inserted, \<open>sess\<close>
  the user id bound to the caller's session cookie. The route takes POST requests only,
  and the handler is modelled on those: it never looks at the method itself. The
  statements that write are kept as a list so that the trace of the session can be
  inspected. The total price is the product in the reals, which is the handler's product
  of doubles on the prices and seat counts of reachable stores.
\<close>

definition book_statements :: "int \<Rightarrow> User \<Rightarrow> Showtime \<Rightarrow> string list \<Rightarrow> Seat list \<Rightarrow>
    (session \<Rightarrow> session) list" where
  "book_statements now u sh selected found =
     map set_is_booked (map Seat_id found) @
     [add_booking (User_id u) (Showtime_id sh) (join '','' selected)
        (Showtime_ticket_price sh * real (length selected)) now,
      commit]"

definition book_tickets :: "int \<Rightarrow> store \<Rightarrow> nat option \<Rightarrow> nat \<Rightarrow> request \<Rightarrow> response \<times> store" where
  "book_tickets now st sess showtime_id req =
     (case current_user st sess of
        None \<Rightarrow> (Unauthorized, st)
      | Some u \<Rightarrow>
          (case get_showtime st showtime_id of
             None \<Rightarrow> (Abort404, st)
           | Some sh \<Rightarrow>
               (let selected_seats = form_getlist (req_form req) ''seats'' in
                if selected_seats = [] then
                  (Redirect [(''Please select at least one seat.'', ''warning'')]
                     (EP_showtime_detail (Showtime_id sh)), st)
                else
                  (let found = matched_seats st (Showtime_id sh) selected_seats in
                   if length found \<noteq> length selected_seats \<or> list_ex Seat_is_booked found then
                     (Redirect [(''One or more selected seats are no longer available. Please try again.'',
                                 ''danger'')]
                        (EP_showtime_detail (Showtime_id sh)), st)
                   else
                     (Redirect [(''Booking confirmed for seats: '' @ join '', '' selected_seats,
                                 ''success'')] EP_my_bookings,
                      committed (last (run_trace (book_statements now u sh selected_seats found)
                                         (begin_session st))))))))"

section \<open>Seat map\<close>

text \<open>
  The rows of the seat map are a Python dictionary, which keeps its keys in the order of
  first insertion: an association list. \<open>seat_label[0]\<close> raises on an empty label, which
  \<open>organize\<close> reports as \<open>None\<close>. The query's \<open>ORDER BY\<close> compares labels code point
  by code point; rows with equal labels keep their table order here.
\<close>

fun setdefault_append :: "char \<Rightarrow> Seat \<Rightarrow> (char \<times> Seat list) list \<Rightarrow> (char \<times> Seat list) list" where
  "setdefault_append k s [] = [(k, [s])]"
| "setdefault_append k s ((k', xs) # rest) =
     (if k' = k then (k', xs @ [s]) # rest else (k', xs) # setdefault_append k s rest)"

fun organize :: "Seat list \<Rightarrow> (char \<times> Seat list) list \<Rightarrow> (char \<times> Seat list) list option" where
  "organize [] rows = Some rows"
| "organize (seat # rest) rows =
     (case Seat_seat_label seat of
        [] \<Rightarrow> None
      | row_label # _ \<Rightarrow> organize rest (setdefault_append row_label seat rows))"

definition ordered_seats :: "store \<Rightarrow> nat \<Rightarrow> Seat list" where
  "ordered_seats st sid =
     sort_key Seat_seat_label (filter (\<lambda>s. Seat_showtime_id s = sid) (seats st))"

definition showtime_detail :: "store \<Rightarrow> nat \<Rightarrow> response \<times> store" where
  "showtime_detail st showtime_id =
     (case get_showtime st showtime_id of
        None \<Rightarrow> (Abort404, st)
      | Some showtime \<Rightarrow>
          (case organize (ordered_seats st (Showtime_id showtime)) [] of
             None \<Rightarrow> (InternalError, st)
           | Some rows \<Rightarrow> (Render [] (V_showtime showtime rows), st)))"

section \<open>Demo seeding\<close>

definition hour :: int where
  "hour = 3600000000"

definition hour_floor :: "int \<Rightarrow> int" where
  "hour_floor t = t - t mod hour"

definition digit_char :: "nat \<Rightarrow> char" where
  "digit_char d = char_of (of_char CHR ''0'' + d)"

function str_nat :: "nat \<Rightarrow> string" where
  "str_nat n = (if n < 10 then [digit_char n] else str_nat (n div 10) @ [digit_char (n mod 10)])"
  by pat_completeness auto
termination
  by (relation "measure (\<lambda>n. n)") auto

declare str_nat.simps [simp del]

definition add_seat :: "nat \<Rightarrow> string \<Rightarrow> store \<Rightarrow> store" where
  "add_seat sid label st =
     st\<lparr>seats := seats st @
        [\<lparr>Seat_id = next_id (map Seat_id (seats st)), Seat_showtime_id = sid,
          Seat_seat_label = label, Seat_is_booked = False\<rparr>]\<rparr>"

text \<open>
  \<open>create_seats_for_showtime\<close> is only ever called with its default 5 rows and 8
  columns; \<open>chr(ord('A') + r)\<close> stays a code point below 256 for fewer than 191 rows.
\<close>

definition create_seats_for_showtime :: "Showtime \<Rightarrow> nat \<Rightarrow> nat \<Rightarrow> store \<Rightarrow> store" where
  "create_seats_for_showtime showtime rows cols st =
     fold (\<lambda>r. fold (\<lambda>c. add_seat (Showtime_id showtime)
                             (char_of (of_char CHR ''A'' + r) # str_nat c))
                     [1..<cols + 1])
          [0..<rows] st"

definition demo_movies :: "(string \<times> string \<times> int \<times> string) list" where
  "demo_movies =
     [(''Interstellar'',
       ''A team of explorers travel through a wormhole in space in an attempt to ensure humanity'' @
         [char_of (39 :: nat)] @ ''s survival.'',
       169,
       ''https://m.media-amazon.com/images/I/91kFYg4fX3L._AC_SL1500_.jpg''),
      (''Inception'',
       ''A thief who steals corporate secrets through dream-sharing technology is given an inverse task of planting an idea.'',
       148,
       ''https://m.media-amazon.com/images/I/51s+JvFsHkL._AC_.jpg''),
      (''The Dark Knight'',
       ''Batman faces the Joker, a criminal mastermind who plunges Gotham into anarchy.'',
       152,
       ''https://m.media-amazon.com/images/I/51K8ouYrHeL._AC_.jpg'')]"

definition add_showtime :: "nat \<Rightarrow> int \<Rightarrow> nat \<Rightarrow> store \<Rightarrow> store" where
  "add_showtime movie_id base_time i st =
     (let showtime = \<lparr>Showtime_id = next_id (map Showtime_id (showtimes st)),
                       Showtime_movie_id = movie_id,
                       Showtime_start_time = base_time + 3 * int i * hour,
                       Showtime_ticket_price = 10 + 2 * real i\<rparr>
      in create_seats_for_showtime showtime 5 8 (st\<lparr>showtimes := showtimes st @ [showtime]\<rparr>))"

text \<open>
  One pass of the loop over \<open>demo_movies\<close>; \<open>now\<close> is the clock as that pass reads it.
\<close>

definition seed_movie :: "int \<Rightarrow> string \<times> string \<times> int \<times> string \<Rightarrow> store \<Rightarrow> store" where
  "seed_movie now movie_data st =
     (case movie_data of (title, description, duration_minutes, poster_url) \<Rightarrow>
        (let movie = \<lparr>Movie_id = next_id (map Movie_id (movies st)), Movie_title = title,
                       Movie_description = description,
                       Movie_duration_minutes = duration_minutes,
                       Movie_poster_url = Some poster_url\<rparr>;
             base_time = hour_floor now + 2 * hour
         in fold (add_showtime (Movie_id movie) base_time) [0..<3]
              (st\<lparr>movies := movies st @ [movie]\<rparr>)))"

text \<open>
  The password hashing of the library is a parameter: \<open>gph salt password\<close> is
  \<open>generate_password_hash\<close> with the random salt it draws made explicit. \<open>now_at k\<close> is
  the clock read in the pass for the \<open>k\<close>-th demo movie.
\<close>

definition seed_demo_data :: "(string \<Rightarrow> string \<Rightarrow> string) \<Rightarrow> string \<Rightarrow> (nat \<Rightarrow> int) \<Rightarrow> store \<Rightarrow> store" where
  "seed_demo_data gph salt now_at st =
     (if length (movies st) > 0 then st
      else
        (let st1 = fold (\<lambda>km. seed_movie (now_at (fst km)) (snd km)) (enumerate 0 demo_movies) st
         in case user_by_email st1 ''demo@example.com'' of
              Some _ \<Rightarrow> st1
            | None \<Rightarrow>
                st1\<lparr>users := users st1 @
                   [\<lparr>User_id = next_id (map User_id (users st1)), User_name = ''Demo User'',
                     User_email = ''demo@example.com'',
                     User_password_hash = gph salt ''password'', User_is_admin = True\<rparr>]\<rparr>))"

definition init_db_command :: "(string \<Rightarrow> string \<Rightarrow> string) \<Rightarrow> string \<Rightarrow> (nat \<Rightarrow> int) \<Rightarrow> store \<Rightarrow> store" where
  "init_db_command gph salt now_at st = seed_demo_data gph salt now_at empty_store"

section \<open>Accounts\<close>

text \<open>
  \<open>cph pwhash password\<close> is the library's \<open>check_password_hash\<close>. \<open>login\<close> and
  \<open>logout\<close> return the user id bound to the session next to the response.
\<close>

definition normalize_email :: "string \<Rightarrow> string" where
  "normalize_email e = lower (strip e)"

definition invalid_credentials :: response where
  "invalid_credentials = Render [(''Invalid email or password.'', ''danger'')] V_login"

definition login :: "(string \<Rightarrow> string \<Rightarrow> bool) \<Rightarrow> store \<Rightarrow> nat option \<Rightarrow> request \<Rightarrow> response \<times> nat option" where
  "login cph st sess req =
     (if req_method req = POST then
        (let email = normalize_email (form_get (req_form req) ''email'' []);
             password = form_get (req_form req) ''password'' []
         in case user_by_email st email of
              None \<Rightarrow> (invalid_credentials, sess)
            | Some user \<Rightarrow>
                if cph (User_password_hash user) password then
                  (Redirect [(''Logged in successfully.'', ''success'')]
                     (case map_of (req_args req) ''next'' of
                        None \<Rightarrow> EP_home
                      | Some next_url \<Rightarrow> if next_url = [] then EP_home else EP_url next_url),
                   Some (User_id user))
                else (invalid_credentials, sess))
      else (Render [] V_login, sess))"

definition register :: "(string \<Rightarrow> string \<Rightarrow> string) \<Rightarrow> string \<Rightarrow> store \<Rightarrow> request \<Rightarrow> response \<times> store" where
  "register gph salt st req =
     (if req_method req = POST then
        (let name = strip (form_get (req_form req) ''name'' []);
             email = normalize_email (form_get (req_form req) ''email'' []);
             password = form_get (req_form req) ''password'' []
         in if name = [] \<or> email = [] \<or> password = [] then
              (Render [(''All fields are required.'', ''warning'')] (V_register (Some (name, email))), st)
            else
              (case user_by_email st email of
                 Some _ \<Rightarrow>
                   (Render [(''Email already in use.'', ''warning'')] (V_register (Some (name, email))), st)
               | None \<Rightarrow>
                   (Redirect [(''Registration successful. Please log in.'', ''success'')] EP_login,
                    st\<lparr>users := users st @
                       [\<lparr>User_id = next_id (map User_id (users st)), User_name = name,
                         User_email = email, User_password_hash = gph salt password,
                         User_is_admin = False\<rparr>]\<rparr>)))
      else (Render [] (V_register None), st))"

definition logout :: "store \<Rightarrow> nat option \<Rightarrow> response \<times> nat option" where
  "logout st sess =
     (case current_user st sess of
        None \<Rightarrow> (Unauthorized, sess)
      | Some _ \<Rightarrow> (Redirect [(''Logged out successfully.'', ''success'')] EP_home, None))"

section \<open>Read-only pages\<close>

definition home :: "store \<Rightarrow> response \<times> store" where
  "home st = (Render [] (V_index (movies st)), st)"

definition movie_detail :: "store \<Rightarrow> nat \<Rightarrow> response \<times> store" where
  "movie_detail st movie_id =
     (case get_movie st movie_id of
        None \<Rightarrow> (Abort404, st)
      | Some movie \<Rightarrow> (Render [] (V_movie_detail movie), st))"

definition my_bookings :: "store \<Rightarrow> nat option \<Rightarrow> response \<times> store" where
  "my_bookings st sess =
     (case current_user st sess of
        None \<Rightarrow> (Unauthorized, st)
      | Some u \<Rightarrow>
          (Render [] (V_bookings (sort_key (\<lambda>b. - Booking_booked_at b)
                        (filter (\<lambda>b. Booking_user_id b = User_id u) (bookings st)))), st))"

section \<open>The operations of the application\<close>

datatype operation =
    Op_home
  | Op_movie_detail nat
  | Op_showtime_detail nat
  | Op_book_tickets int "nat option" nat request
  | Op_my_bookings "nat option"
  | Op_login "nat option" request
  | Op_register string request
  | Op_logout "nat option"
  | Op_seed_demo_data string "nat \<Rightarrow> int"
  | Op_init_db string "nat \<Rightarrow> int"

text \<open>
  The effect of an operation on the store. \<open>login\<close> and \<open>logout\<close> touch the session
  cookie only.
\<close>

fun exec :: "(string \<Rightarrow> string \<Rightarrow> string) \<Rightarrow> operation \<Rightarrow> store \<Rightarrow> store" where
  "exec gph Op_home st = snd (home st)"
| "exec gph (Op_movie_detail movie_id) st = snd (movie_detail st movie_id)"
| "exec gph (Op_showtime_detail showtime_id) st = snd (showtime_detail st showtime_id)"
| "exec gph (Op_book_tickets now sess showtime_id req) st =
     snd (book_tickets now st sess showtime_id req)"
| "exec gph (Op_my_bookings sess) st = snd (my_bookings st sess)"
| "exec gph (Op_login sess req) st = st"
| "exec gph (Op_register salt req) st = snd (register gph salt st req)"
| "exec gph (Op_logout sess) st = st"
| "exec gph (Op_seed_demo_data salt now_at) st = seed_demo_data gph salt now_at st"
| "exec gph (Op_init_db salt now_at) st = init_db_command gph salt now_at st"

fun is_booking :: "operation \<Rightarrow> bool" where
  "is_booking (Op_book_tickets now sess showtime_id req) = True"
| "is_booking _ = False"

fun is_init_db :: "operation \<Rightarrow> bool" where
  "is_init_db (Op_init_db salt now_at) = True"
| "is_init_db _ = False"

inductive reachable :: "(string \<Rightarrow> string \<Rightarrow> string) \<Rightarrow> store \<Rightarrow> bool" for gph where
  reachable_empty: "reachable gph empty_store"
| reachable_exec: "reachable gph st \<Longrightarrow> reachable gph (exec gph op st)"

text \<open>\<open>Seat.query.get(i).is_booked\<close>, when there is such a seat.\<close>

definition seat_booked :: "store \<Rightarrow> nat \<Rightarrow> bool option" where
  "seat_booked st i = map_option Seat_is_booked (find (\<lambda>s. Seat_id s = i) (seats st))"

section \<open>Auxiliary definitions for the statements\<close>

subsection \<open>The effects of the writing operations, written out\<close>

text \<open>
  The store a successful booking leaves behind: every row of the seat table whose key is
  the key of a matched seat is marked, and one booking row is appended.
\<close>

definition booked_store :: "int \<Rightarrow> User \<Rightarrow> Showtime \<Rightarrow> string list \<Rightarrow> store \<Rightarrow> store" where
  "booked_store now u sh selected st =
     st\<lparr>seats := map (\<lambda>x. if Seat_id x \<in> Seat_id ` set (matched_seats st (Showtime_id sh) selected)
                           then x\<lparr>Seat_is_booked := True\<rparr> else x) (seats st),
        bookings := bookings st @
          [\<lparr>Booking_id = next_id (map Booking_id (bookings st)),
            Booking_user_id = User_id u, Booking_showtime_id = Showtime_id sh,
            Booking_seat_labels = join '','' selected,
            Booking_total_price = Showtime_ticket_price sh * real (length selected),
            Booking_booked_at = now\<rparr>]\<rparr>"

text \<open>
  The row a successful registration appends.
\<close>

definition new_user :: "(string \<Rightarrow> string \<Rightarrow> string) \<Rightarrow> string \<Rightarrow> store \<Rightarrow> string \<Rightarrow> string \<Rightarrow> string \<Rightarrow> User" where
  "new_user gph salt st name email password =
     \<lparr>User_id = next_id (map User_id (users st)), User_name = name, User_email = email,
      User_password_hash = gph salt password, User_is_admin = False\<rparr>"

text \<open>
  The labels of the default grid, in the order \<open>create_seats_for_showtime\<close> adds
  them, and the forty seats it adds for showtime \<open>sid\<close> when \<open>m\<close> is the next free key.
\<close>

definition grid_labels :: "string list" where
  "grid_labels =
     [''A1'', ''A2'', ''A3'', ''A4'', ''A5'', ''A6'', ''A7'', ''A8'',
      ''B1'', ''B2'', ''B3'', ''B4'', ''B5'', ''B6'', ''B7'', ''B8'',
      ''C1'', ''C2'', ''C3'', ''C4'', ''C5'', ''C6'', ''C7'', ''C8'',
      ''D1'', ''D2'', ''D3'', ''D4'', ''D5'', ''D6'', ''D7'', ''D8'',
      ''E1'', ''E2'', ''E3'', ''E4'', ''E5'', ''E6'', ''E7'', ''E8'']"

definition seat_block :: "nat \<Rightarrow> nat \<Rightarrow> Seat list" where
  "seat_block sid m =
     map (\<lambda>il. \<lparr>Seat_id = fst il, Seat_showtime_id = sid, Seat_seat_label = snd il,
                 Seat_is_booked = False\<rparr>) (enumerate m grid_labels)"

text \<open>
  What seeding writes into an empty catalogue: the movies with keys 1 to 3, three
  showtimes for each, forty seats for each showtime, and the demo user.
\<close>

definition seeded_movies :: "Movie list" where
  "seeded_movies =
     map (\<lambda>im. \<lparr>Movie_id = fst im, Movie_title = fst (snd im),
                 Movie_description = fst (snd (snd im)),
                 Movie_duration_minutes = fst (snd (snd (snd im))),
                 Movie_poster_url = Some (snd (snd (snd (snd im))))\<rparr>)
       (enumerate 1 demo_movies)"

definition seeded_showtimes :: "(nat \<Rightarrow> int) \<Rightarrow> Showtime list" where
  "seeded_showtimes now_at =
     concat (map (\<lambda>k.
        [\<lparr>Showtime_id = 3 * k + 1, Showtime_movie_id = k + 1,
          Showtime_start_time = hour_floor (now_at k) + 2 * hour, Showtime_ticket_price = 10\<rparr>,
         \<lparr>Showtime_id = 3 * k + 2, Showtime_movie_id = k + 1,
          Showtime_start_time = hour_floor (now_at k) + 5 * hour, Showtime_ticket_price = 12\<rparr>,
         \<lparr>Showtime_id = 3 * k + 3, Showtime_movie_id = k + 1,
          Showtime_start_time = hour_floor (now_at k) + 8 * hour, Showtime_ticket_price = 14\<rparr>])
       [0, 1, 2])"

definition seeded_seats :: "Seat list" where
  "seeded_seats = concat (map (\<lambda>k. seat_block (k + 1) (40 * k + 1)) [0, 1, 2, 3, 4, 5, 6, 7, 8])"

definition demo_user :: "(string \<Rightarrow> string \<Rightarrow> string) \<Rightarrow> string \<Rightarrow> nat \<Rightarrow> User" where
  "demo_user gph salt uid =
     \<lparr>User_id = uid, User_name = ''Demo User'', User_email = ''demo@example.com'',
      User_password_hash = gph salt ''password'', User_is_admin = True\<rparr>"

subsection \<open>Observations and invariants\<close>

text \<open>
  \<open>split_on c s\<close> is Python's \<open>s.split(c)\<close> for a one-character separator; it reads
  the labels back from the label column of a booking.
\<close>

fun split_on :: "char \<Rightarrow> string \<Rightarrow> string list" where
  "split_on c [] = [] # []"
| "split_on c (x # xs) =
     (if x = c then [] # split_on c xs
      else (case split_on c xs of [] \<Rightarrow> [x] # [] | y # ys \<Rightarrow> (x # y) # ys))"

text \<open>
  Three properties of a store: a store without movies has no showtimes and no seats; no
  two seats of one showtime carry the same label; every stored email is its own
  normalization and no two users share one.
\<close>

definition catalogue_ok :: "store \<Rightarrow> bool" where
  "catalogue_ok st = (movies st = [] \<longrightarrow> showtimes st = [] \<and> seats st = [])"

definition seat_keys_distinct :: "store \<Rightarrow> bool" where
  "seat_keys_distinct st = distinct (map (\<lambda>s. (Seat_showtime_id s, Seat_seat_label s)) (seats st))"

definition emails_normalized :: "store \<Rightarrow> bool" where
  "emails_normalized st =
     (list_all (\<lambda>u. normalize_email (User_email u) = User_email u) (users st) \<and>
      distinct (map User_email (users st)))"

subsection \<open>Example data\<close>

text \<open>
  A stand-in for the library's two password functions, a clock that always reads half
  past midnight, small stores and requests: the inputs of the instances given after the
  results below.
\<close>

definition example_hash :: "string \<Rightarrow> string \<Rightarrow> string" where
  "example_hash salt password = salt @ ''$'' @ rev password"

definition example_check :: "string \<Rightarrow> string \<Rightarrow> bool" where
  "example_check pwhash password =
     (pwhash = takeWhile (\<lambda>c. c \<noteq> CHR ''$'') pwhash @ ''$'' @ rev password)"

definition half_past :: "nat \<Rightarrow> int" where
  "half_past k = 1800000000"

definition example_store :: store where
  "example_store =
     \<lparr>users = [\<lparr>User_id = 1, User_name = ''Alice'', User_email = ''alice@example.com'',
                 User_password_hash = ''salt$dnalrednow'', User_is_admin = False\<rparr>],
      movies = [\<lparr>Movie_id = 1, Movie_title = ''Inception'', Movie_description = ''A thief.'',
                  Movie_duration_minutes = 148, Movie_poster_url = None\<rparr>],
      showtimes = [\<lparr>Showtime_id = 1, Showtime_movie_id = 1, Showtime_start_time = 7200000000,
                     Showtime_ticket_price = 10\<rparr>],
      seats = [\<lparr>Seat_id = 1, Seat_showtime_id = 1, Seat_seat_label = ''A1'', Seat_is_booked = False\<rparr>,
               \<lparr>Seat_id = 2, Seat_showtime_id = 1, Seat_seat_label = ''A2'', Seat_is_booked = False\<rparr>,
               \<lparr>Seat_id = 3, Seat_showtime_id = 1, Seat_seat_label = ''A3'', Seat_is_booked = True\<rparr>],
      bookings = []\<rparr>"

definition unsorted_store :: store where
  "unsorted_store =
     example_store\<lparr>seats :=
       \<lparr>Seat_id = 4, Seat_showtime_id = 1, Seat_seat_label = ''B1'', Seat_is_booked = False\<rparr> #
       seats example_store @
       [\<lparr>Seat_id = 5, Seat_showtime_id = 2, Seat_seat_label = ''C1'', Seat_is_booked = False\<rparr>]\<rparr>"

definition seeded_store :: store where
  "seeded_store = seed_demo_data example_hash ''s1'' half_past empty_store"

definition seats_request :: "string list \<Rightarrow> request" where
  "seats_request labels =
     \<lparr>req_method = POST, req_form = map (\<lambda>l. (''seats'', l)) labels, req_args = []\<rparr>"

definition account_request :: "string \<Rightarrow> string \<Rightarrow> string \<Rightarrow> request" where
  "account_request name email password =
     \<lparr>req_method = POST,
      req_form = [(''name'', name), (''email'', email), (''password'', password)],
      req_args = []\<rparr>"

section \<open>Properties of booking\<close>

subsection \<open>The trace of a booking\<close>

lemma run_trace_not_Nil: "run_trace fs s \<noteq> []"
  by (cases fs) simp_all

lemma last_run_trace: "last (run_trace fs s) = fold (\<lambda>f. f) fs s"
  by (induction fs arbitrary: s) (simp_all add: run_trace_not_Nil)

lemma run_trace_append:
  "run_trace (fs @ [g]) s = run_trace fs s @ [g (fold (\<lambda>f. f) fs s)]"
  by (induction fs arbitrary: s) auto

lemma committed_run_trace:
  "(\<And>f t. f \<in> set fs \<Longrightarrow> committed (f t) = committed t) \<Longrightarrow>
   t \<in> set (run_trace fs s) \<Longrightarrow> committed t = committed s"
  by (induction fs arbitrary: s) auto

lemma fold_set_is_booked:
  "fold (\<lambda>f. f) (map set_is_booked ids) s =
     s\<lparr>pending := (pending s)\<lparr>seats :=
         map (\<lambda>x. if Seat_id x \<in> set ids then x\<lparr>Seat_is_booked := True\<rparr> else x) (seats (pending s))\<rparr>\<rparr>"
proof (induction ids arbitrary: s)
  case Nil
  show ?case by simp
next
  case (Cons i ids)
  show ?case
    by (simp add: Cons.IH) (auto simp: set_is_booked_def intro!: arg_cong[where f="\<lambda>z. _\<lparr>pending := z\<rparr>"])
qed

lemma committed_book_statements:
  "committed (last (run_trace (book_statements now u sh selected (matched_seats st (Showtime_id sh) selected))
      (begin_session st))) = booked_store now u sh selected st"
  by (simp add: last_run_trace book_statements_def fold_set_is_booked commit_def add_booking_def
      begin_session_def booked_store_def del: map_map)

lemma butlast_book_trace:
  assumes "t \<in> set (butlast (run_trace (book_statements now u sh selected found) (begin_session st)))"
  shows "committed t = st"
proof -
  let ?pre = "map set_is_booked (map Seat_id found) @
     [add_booking (User_id u) (Showtime_id sh) (join '','' selected)
        (Showtime_ticket_price sh * real (length selected)) now]"
  have "book_statements now u sh selected found = ?pre @ [commit]"
    by (simp add: book_statements_def)
  then have "t \<in> set (run_trace ?pre (begin_session st))"
    using assms by (simp only: run_trace_append butlast_snoc)
  moreover have "\<And>f t. f \<in> set ?pre \<Longrightarrow> committed (f t) = committed t"
    by (auto simp: set_is_booked_def add_booking_def)
  ultimately have "committed t = committed (begin_session st)"
    by (rule committed_run_trace[rotated])
  then show ?thesis by (simp add: begin_session_def)
qed

subsection \<open>The two outcomes of a well-formed request\<close>

lemma book_tickets_reject:
  assumes "current_user st sess = Some u" "get_showtime st showtime_id = Some sh"
    and "form_getlist (req_form req) ''seats'' \<noteq> []"
    and "length (matched_seats st (Showtime_id sh) (form_getlist (req_form req) ''seats''))
            \<noteq> length (form_getlist (req_form req) ''seats'') \<or>
         (\<exists>x \<in> set (matched_seats st (Showtime_id sh) (form_getlist (req_form req) ''seats'')).
            Seat_is_booked x)"
  shows "book_tickets now st sess showtime_id req =
     (Redirect [(''One or more selected seats are no longer available. Please try again.'', ''danger'')]
        (EP_showtime_detail (Showtime_id sh)), st)"
  using assms by (auto simp: book_tickets_def Let_def list_ex_iff)

lemma book_tickets_reject_store:
  assumes "get_showtime st showtime_id = Some sh"
    and "length (matched_seats st (Showtime_id sh) (form_getlist (req_form req) ''seats''))
            \<noteq> length (form_getlist (req_form req) ''seats'') \<or>
         (\<exists>x \<in> set (matched_seats st (Showtime_id sh) (form_getlist (req_form req) ''seats'')).
            Seat_is_booked x)"
  shows "snd (book_tickets now st sess showtime_id req) = st"
  using assms by (auto simp: book_tickets_def Let_def list_ex_iff split: option.split)

lemma book_tickets_accept:
  assumes "current_user st sess = Some u" "get_showtime st showtime_id = Some sh"
    and "form_getlist (req_form req) ''seats'' = selected" "selected \<noteq> []"
    and "length (matched_seats st (Showtime_id sh) selected) = length selected"
    and "\<forall>x \<in> set (matched_seats st (Showtime_id sh) selected). \<not> Seat_is_booked x"
  shows "book_tickets now st sess showtime_id req =
     (Redirect [(''Booking confirmed for seats: '' @ join '', '' selected, ''success'')] EP_my_bookings,
      booked_store now u sh selected st)"
  using assms by (simp add: book_tickets_def Let_def list_ex_iff committed_book_statements)

lemma matched_seats_booked_store:
  "matched_seats (booked_store now u sh selected st) (Showtime_id sh) selected =
     map (\<lambda>x. x\<lparr>Seat_is_booked := True\<rparr>) (matched_seats st (Showtime_id sh) selected)"
  by (simp add: booked_store_def matched_seats_def filter_map comp_def)

text \<open>
  Claim C1. A booking request on an existing showtime with a non-empty list of labels is
  rejected as a whole when the number of seats matched by showtime and label differs from
  the number of labels, or when a matched seat is already booked: the store is returned
  as it was, so no seat flag changes and no booking row appears, and a logged-in caller
  is redirected to the seat map with the error message. In particular, once a request has
  been accepted, submitting the same request again (at any time, from any session) leaves
  the store as the first booking left it, and a logged-in caller gets that same rejection.
\<close>

theorem book_tickets_all_or_nothing:
  assumes "get_showtime st showtime_id = Some sh"
    and "form_getlist (req_form req) ''seats'' = selected" and "selected \<noteq> []"
  shows "(length (matched_seats st (Showtime_id sh) selected) \<noteq> length selected \<or>
          (\<exists>x \<in> set (matched_seats st (Showtime_id sh) selected). Seat_is_booked x) \<longrightarrow>
          snd (book_tickets now st sess showtime_id req) = st \<and>
          (current_user st sess = Some u \<longrightarrow>
           book_tickets now st sess showtime_id req =
             (Redirect [(''One or more selected seats are no longer available. Please try again.'',
                         ''danger'')] (EP_showtime_detail (Showtime_id sh)), st))) \<and>
         (current_user st sess = Some u \<and>
          length (matched_seats st (Showtime_id sh) selected) = length selected \<and>
          (\<forall>x \<in> set (matched_seats st (Showtime_id sh) selected). \<not> Seat_is_booked x) \<longrightarrow>
          (\<forall>now' sess'.
             snd (book_tickets now' (snd (book_tickets now st sess showtime_id req)) sess' showtime_id req) =
               snd (book_tickets now st sess showtime_id req) \<and>
             (\<forall>u'. current_user (snd (book_tickets now st sess showtime_id req)) sess' = Some u' \<longrightarrow>
                book_tickets now' (snd (book_tickets now st sess showtime_id req)) sess' showtime_id req =
                  (Redirect [(''One or more selected seats are no longer available. Please try again.'',
                              ''danger'')] (EP_showtime_detail (Showtime_id sh)),
                   snd (book_tickets now st sess showtime_id req)))))"
proof (intro conjI impI allI)
  assume bad: "length (matched_seats st (Showtime_id sh) selected) \<noteq> length selected \<or>
          (\<exists>x \<in> set (matched_seats st (Showtime_id sh) selected). Seat_is_booked x)"
  then show "snd (book_tickets now st sess showtime_id req) = st"
    using assms by (intro book_tickets_reject_store) auto
  assume "current_user st sess = Some u"
  with bad show "book_tickets now st sess showtime_id req =
            (Redirect [(''One or more selected seats are no longer available. Please try again.'',
                        ''danger'')] (EP_showtime_detail (Showtime_id sh)), st)"
    using assms by (intro book_tickets_reject) auto
next
  fix now' sess'
  let ?st' = "snd (book_tickets now st sess showtime_id req)"
  assume ok: "current_user st sess = Some u \<and>
          length (matched_seats st (Showtime_id sh) selected) = length selected \<and>
          (\<forall>x \<in> set (matched_seats st (Showtime_id sh) selected). \<not> Seat_is_booked x)"
  have st': "?st' = booked_store now u sh selected st"
    using book_tickets_accept[OF _ assms, of sess u now] ok by simp
  have sh': "get_showtime ?st' showtime_id = Some sh"
    using assms(1) by (simp add: st' get_showtime_def booked_store_def)
  have "matched_seats st (Showtime_id sh) selected \<noteq> []"
    using ok assms(3) by auto
  then have bad': "\<exists>x \<in> set (matched_seats ?st' (Showtime_id sh) selected). Seat_is_booked x"
    by (cases "matched_seats st (Showtime_id sh) selected")
       (simp_all add: st' matched_seats_booked_store)
  then show "snd (book_tickets now' ?st' sess' showtime_id req) = ?st'"
    using sh' assms(2) by (intro book_tickets_reject_store) auto
  fix u'
  assume "current_user ?st' sess' = Some u'"
  with bad' show "book_tickets now' ?st' sess' showtime_id req =
       (Redirect [(''One or more selected seats are no longer available. Please try again.'',
                   ''danger'')] (EP_showtime_detail (Showtime_id sh)), ?st')"
    using sh' assms(2,3) by (intro book_tickets_reject) auto
qed

text \<open>
  In the example store seat A3 is booked: asking for A2 and A3 is rejected; and after A1
  and A2 have been booked, the same request is rejected the second time.
\<close>

theorem book_tickets_all_or_nothing_witness:
  "book_tickets 0 example_store (Some 1) 1 (seats_request [''A2'', ''A3'']) =
     (Redirect [(''One or more selected seats are no longer available. Please try again.'',
                 ''danger'')] (EP_showtime_detail 1), example_store) \<and>
   book_tickets 5 (snd (book_tickets 0 example_store (Some 1) 1 (seats_request [''A1'', ''A2''])))
       (Some 1) 1 (seats_request [''A1'', ''A2'']) =
     (Redirect [(''One or more selected seats are no longer available. Please try again.'',
                 ''danger'')] (EP_showtime_detail 1),
      snd (book_tickets 0 example_store (Some 1) 1 (seats_request [''A1'', ''A2''])))"
proof -
  let ?u = "hd (users example_store)" and ?sh = "hd (showtimes example_store)"
  have u: "current_user example_store (Some 1) = Some ?u"
    and sh: "get_showtime example_store 1 = Some ?sh"
    and id: "Showtime_id ?sh = 1"
    by code_simp+
  have f: "form_getlist (req_form (seats_request [''A2'', ''A3''])) ''seats'' = [''A2'', ''A3'']"
    and g: "form_getlist (req_form (seats_request [''A1'', ''A2''])) ''seats'' = [''A1'', ''A2'']"
    by code_simp+
  have bad: "length (matched_seats example_store (Showtime_id ?sh) [''A2'', ''A3'']) \<noteq> length [''A2'', ''A3''] \<or>
      (\<exists>x \<in> set (matched_seats example_store (Showtime_id ?sh) [''A2'', ''A3'']). Seat_is_booked x)"
    by code_simp
  have good: "length (matched_seats example_store (Showtime_id ?sh) [''A1'', ''A2'']) = length [''A1'', ''A2''] \<and>
      (\<forall>x \<in> set (matched_seats example_store (Showtime_id ?sh) [''A1'', ''A2'']). \<not> Seat_is_booked x)"
    by code_simp
  have u': "current_user (snd (book_tickets 0 example_store (Some 1) 1 (seats_request [''A1'', ''A2''])))
      (Some 1) = Some ?u"
    by code_simp
  have ne: "[''A2'', ''A3''] \<noteq> ([] :: string list)" "[''A1'', ''A2''] \<noteq> ([] :: string list)"
    by simp_all
  from book_tickets_all_or_nothing[OF sh f ne(1), where sess = "Some 1" and u = ?u and now = 0] bad u
  have 1: "book_tickets 0 example_store (Some 1) 1 (seats_request [''A2'', ''A3'']) =
     (Redirect [(''One or more selected seats are no longer available. Please try again.'',
                 ''danger'')] (EP_showtime_detail 1), example_store)"
    by (simp add: id)
  from book_tickets_all_or_nothing[OF sh g ne(2), where sess = "Some 1" and u = ?u and now = 0] good u u'
  have 2: "book_tickets 5 (snd (book_tickets 0 example_store (Some 1) 1 (seats_request [''A1'', ''A2''])))
       (Some 1) 1 (seats_request [''A1'', ''A2'']) =
     (Redirect [(''One or more selected seats are no longer available. Please try again.'',
                 ''danger'')] (EP_showtime_detail 1),
      snd (book_tickets 0 example_store (Some 1) 1 (seats_request [''A1'', ''A2''])))"
    by (simp add: id)
  from 1 2 show ?thesis by (rule conjI)
qed

lemma book_tickets_accept_effects:
  assumes "current_user st sess = Some u" and "get_showtime st showtime_id = Some sh"
    and "form_getlist (req_form req) ''seats'' = selected" and "selected \<noteq> []"
    and "length (matched_seats st (Showtime_id sh) selected) = length selected"
    and "\<forall>x \<in> set (matched_seats st (Showtime_id sh) selected). \<not> Seat_is_booked x"
  shows "fst (book_tickets now st sess showtime_id req) =
           Redirect [(''Booking confirmed for seats: '' @ join '', '' selected, ''success'')]
             EP_my_bookings \<and>
         bookings (snd (book_tickets now st sess showtime_id req)) =
           bookings st @
             [\<lparr>Booking_id = next_id (map Booking_id (bookings st)),
               Booking_user_id = User_id u, Booking_showtime_id = Showtime_id sh,
               Booking_seat_labels = join '','' selected,
               Booking_total_price = Showtime_ticket_price sh * real (length selected),
               Booking_booked_at = now\<rparr>] \<and>
         seats (snd (book_tickets now st sess showtime_id req)) =
           map (\<lambda>x. if Seat_id x \<in> Seat_id ` set (matched_seats st (Showtime_id sh) selected)
                    then x\<lparr>Seat_is_booked := True\<rparr> else x) (seats st) \<and>
         matched_seats (snd (book_tickets now st sess showtime_id req)) (Showtime_id sh) selected =
           map (\<lambda>x. x\<lparr>Seat_is_booked := True\<rparr>) (matched_seats st (Showtime_id sh) selected) \<and>
         users (snd (book_tickets now st sess showtime_id req)) = users st \<and>
         movies (snd (book_tickets now st sess showtime_id req)) = movies st \<and>
         showtimes (snd (book_tickets now st sess showtime_id req)) = showtimes st \<and>
         (\<forall>t \<in> set (butlast (run_trace
                (book_statements now u sh selected (matched_seats st (Showtime_id sh) selected))
                (begin_session st))). committed t = st) \<and>
         committed (last (run_trace
                (book_statements now u sh selected (matched_seats st (Showtime_id sh) selected))
                (begin_session st))) = snd (book_tickets now st sess showtime_id req)"
proof -
  have eq: "book_tickets now st sess showtime_id req =
     (Redirect [(''Booking confirmed for seats: '' @ join '', '' selected, ''success'')] EP_my_bookings,
      booked_store now u sh selected st)"
    using assms by (rule book_tickets_accept)
  have "matched_seats (booked_store now u sh selected st) (Showtime_id sh) selected =
           map (\<lambda>x. x\<lparr>Seat_is_booked := True\<rparr>) (matched_seats st (Showtime_id sh) selected)"
    by (rule matched_seats_booked_store)
  moreover have "\<forall>t \<in> set (butlast (run_trace
                (book_statements now u sh selected (matched_seats st (Showtime_id sh) selected))
                (begin_session st))). committed t = st"
    using butlast_book_trace by blast
  ultimately show ?thesis
    by (simp add: eq committed_book_statements) (simp add: booked_store_def)
qed

section \<open>Properties of seeding\<close>

subsection \<open>Fresh keys\<close>

lemma fold_max_acc: "fold max xs (a::nat) = max a (fold max xs 0)"
proof (induction xs arbitrary: a)
  case Nil
  show ?case by simp
next
  case (Cons x xs)
  have "fold max (x # xs) a = max (max x a) (fold max xs 0)"
    using Cons.IH[of "max x a"] by simp
  moreover have "fold max (x # xs) 0 = max x (fold max xs 0)"
    using Cons.IH[of "max x 0"] by simp
  ultimately show ?case
    by (simp add: max.assoc max.left_commute)
qed

lemma next_id_Nil: "next_id [] = 1"
  by (simp add: next_id_def)

lemma next_id_Cons: "next_id (x # xs) = max (Suc x) (next_id xs)"
  using fold_max_acc[of xs "max x 0"] by (simp add: next_id_def)

lemma next_id_append: "next_id (xs @ ys) = max (next_id xs) (next_id ys)"
  by (induction xs) (simp_all add: next_id_Cons next_id_Nil max.assoc, simp add: next_id_def)

lemma next_id_upt: "next_id [a..<a + k] = (if k = 0 then 1 else a + k)"
proof (induction k)
  case 0
  show ?case by (simp add: next_id_Nil)
next
  case (Suc k)
  have "next_id [a..<a + Suc k] = next_id ([a..<a + k] @ [a + k])"
    by simp
  also have "\<dots> = max (next_id [a..<a + k]) (next_id [a + k])"
    by (rule next_id_append)
  finally show ?case
    using Suc.IH by (simp add: next_id_Cons next_id_Nil)
qed

lemma next_id_greater: "i \<in> set ids \<Longrightarrow> i < next_id ids"
  by (induction ids) (auto simp: next_id_Cons)

lemma fold_concat_eq: "fold f (concat xss) s = fold (fold f) xss s"
  by (induction xss arbitrary: s) simp_all

subsection \<open>The seat grid of one showtime\<close>

lemma fold_add_seat:
  "fold (add_seat sid) ls st =
     st\<lparr>seats := seats st @
        map (\<lambda>il. \<lparr>Seat_id = fst il, Seat_showtime_id = sid, Seat_seat_label = snd il,
                    Seat_is_booked = False\<rparr>)
          (enumerate (next_id (map Seat_id (seats st))) ls)\<rparr>"
proof (induction ls arbitrary: st)
  case Nil
  show ?case by simp
next
  case (Cons l ls)
  have n: "next_id (map Seat_id (seats (add_seat sid l st))) = Suc (next_id (map Seat_id (seats st)))"
    by (simp add: add_seat_def next_id_append next_id_Cons next_id_Nil)
  show ?case
    by (simp add: Cons.IH n) (simp add: add_seat_def)
qed

lemma grid_labels_eq:
  "concat (map (\<lambda>r. map (\<lambda>c. char_of (of_char CHR ''A'' + r) # str_nat c) [1..<8 + 1]) [0..<5])
     = grid_labels"
  by code_simp

lemma create_seats_for_showtime_eq:
  "create_seats_for_showtime showtime 5 8 st =
     st\<lparr>seats := seats st @ seat_block (Showtime_id showtime) (next_id (map Seat_id (seats st)))\<rparr>"
proof -
  let ?lab = "\<lambda>r c. char_of (of_char CHR ''A'' + r) # str_nat c"
  have "create_seats_for_showtime showtime 5 8 st =
      fold (fold (add_seat (Showtime_id showtime)))
        (map (\<lambda>r. map (?lab r) [1..<8 + 1]) [0..<5]) st"
    by (simp only: create_seats_for_showtime_def fold_map comp_def)
  also have "\<dots> = fold (add_seat (Showtime_id showtime))
       (concat (map (\<lambda>r. map (?lab r) [1..<8 + 1]) [0..<5])) st"
    by (simp only: fold_concat_eq)
  finally show ?thesis
    by (simp only: grid_labels_eq fold_add_seat seat_block_def)
qed

lemma length_grid_labels: "length grid_labels = 40"
  by (simp add: grid_labels_def)

lemma map_Seat_id_seat_block: "map Seat_id (seat_block sid m) = [m..<m + 40]"
  by (simp add: seat_block_def comp_def enumerate_eq_zip length_grid_labels)

lemma next_id_seat_block: "next_id (map Seat_id (seat_block sid m)) = m + 40"
  by (simp add: map_Seat_id_seat_block next_id_upt)

lemma add_showtime_eq:
  "add_showtime movie_id base_time i st =
     st\<lparr>showtimes := showtimes st @
          [\<lparr>Showtime_id = next_id (map Showtime_id (showtimes st)),
            Showtime_movie_id = movie_id,
            Showtime_start_time = base_time + 3 * int i * hour,
            Showtime_ticket_price = 10 + 2 * real i\<rparr>],
        seats := seats st @
          seat_block (next_id (map Showtime_id (showtimes st))) (next_id (map Seat_id (seats st)))\<rparr>"
  by (simp add: add_showtime_def create_seats_for_showtime_eq Let_def)

lemma upt_0_3: "[0..<3] = [0, 1, 2]"
  by code_simp

lemma max_next_simps:
  "max (n::nat) (Suc n) = Suc n" "max n (max (Suc n) (Suc (Suc n))) = Suc (Suc n)"
  "max (m::nat) (m + 40) = m + 40" "max m (max (m + 40) (m + 80)) = m + 80"
  by simp_all

subsection \<open>The catalogue written by seeding\<close>

lemma seed_movie_eq:
  "seed_movie now (title, description, duration_minutes, poster_url) st =
     st\<lparr>movies := movies st @
          [\<lparr>Movie_id = next_id (map Movie_id (movies st)), Movie_title = title,
            Movie_description = description,
            Movie_duration_minutes = duration_minutes, Movie_poster_url = Some poster_url\<rparr>],
        showtimes := showtimes st @
          [\<lparr>Showtime_id = next_id (map Showtime_id (showtimes st)),
            Showtime_movie_id = next_id (map Movie_id (movies st)),
            Showtime_start_time = hour_floor now + 2 * hour,
            Showtime_ticket_price = 10\<rparr>,
           \<lparr>Showtime_id = next_id (map Showtime_id (showtimes st)) + 1,
            Showtime_movie_id = next_id (map Movie_id (movies st)),
            Showtime_start_time = hour_floor now + 2 * hour + 3 * hour,
            Showtime_ticket_price = 12\<rparr>,
           \<lparr>Showtime_id = next_id (map Showtime_id (showtimes st)) + 2,
            Showtime_movie_id = next_id (map Movie_id (movies st)),
            Showtime_start_time = hour_floor now + 2 * hour + 6 * hour,
            Showtime_ticket_price = 14\<rparr>],
        seats := seats st @
          seat_block (next_id (map Showtime_id (showtimes st))) (next_id (map Seat_id (seats st))) @
          seat_block (next_id (map Showtime_id (showtimes st)) + 1) (next_id (map Seat_id (seats st)) + 40) @
          seat_block (next_id (map Showtime_id (showtimes st)) + 2) (next_id (map Seat_id (seats st)) + 80)\<rparr>"
  by (simp add: seed_movie_def upt_0_3 add_showtime_eq next_id_append next_id_Cons next_id_Nil
      next_id_seat_block max_next_simps add.commute)

lemma seed_movies_empty_catalogue:
  assumes "movies st = []" "showtimes st = []" "seats st = []"
  shows "fold (\<lambda>km. seed_movie (now_at (fst km)) (snd km)) (enumerate 0 demo_movies) st =
     st\<lparr>movies := seeded_movies, showtimes := seeded_showtimes now_at, seats := seeded_seats\<rparr>"
  using assms
  by (simp add: demo_movies_def seed_movie_eq next_id_append next_id_Cons next_id_Nil
      next_id_seat_block seeded_movies_def seeded_showtimes_def seeded_seats_def
      numeral_2_eq_2[symmetric] add.commute)

lemma seed_demo_data_nonempty: "movies st \<noteq> [] \<Longrightarrow> seed_demo_data gph salt now_at st = st"
  by (simp add: seed_demo_data_def)

lemma seed_demo_data_empty_catalogue:
  assumes "movies st = []" "showtimes st = []" "seats st = []"
  shows "seed_demo_data gph salt now_at st =
     st\<lparr>movies := seeded_movies, showtimes := seeded_showtimes now_at, seats := seeded_seats,
        users := (case user_by_email st ''demo@example.com'' of
                    Some _ \<Rightarrow> users st
                  | None \<Rightarrow> users st @ [demo_user gph salt (next_id (map User_id (users st)))])\<rparr>"
  using assms
  by (simp add: seed_demo_data_def seed_movies_empty_catalogue[OF assms] user_by_email_def
      demo_user_def split: option.split)

lemma seeded_movies_not_Nil: "seeded_movies \<noteq> []"
  by (simp add: seeded_movies_def demo_movies_def)

lemma length_seat_block: "length (seat_block sid m) = 40"
  by (simp add: seat_block_def length_grid_labels)

lemma length_seeded_seats: "length seeded_seats = 360"
  by (simp add: seeded_seats_def length_seat_block)

lemma filter_seat_block:
  "filter (\<lambda>s. Seat_showtime_id s = k) (seat_block sid m) = (if sid = k then seat_block sid m else [])"
  by (simp add: seat_block_def filter_map comp_def)

lemma seat_block_labels:
  "map (\<lambda>s. (Seat_seat_label s, Seat_is_booked s)) (seat_block sid m) =
     map (\<lambda>l. (l, False)) grid_labels"
proof -
  have "map (\<lambda>s. (Seat_seat_label s, Seat_is_booked s)) (seat_block sid m) =
      map (\<lambda>l. (l, False)) (map snd (enumerate m grid_labels))"
    by (simp add: seat_block_def comp_def del: map_snd_enumerate)
  then show ?thesis by simp
qed

lemma distinct_grid_labels: "distinct grid_labels"
  by (simp add: grid_labels_def)

lemma grid_labels_product:
  "grid_labels = concat (map (\<lambda>r. map (\<lambda>c. [r, c]) ''12345678'') ''ABCDE'')"
  by (simp add: grid_labels_def)

lemma seeded_showtime_ids: "map Showtime_id (seeded_showtimes now_at) = [1, 2, 3, 4, 5, 6, 7, 8, 9]"
  by (simp add: seeded_showtimes_def)

lemma distinct_seeded_seat_ids: "distinct (map Seat_id seeded_seats)"
  by (auto simp: seeded_seats_def map_Seat_id_seat_block)

lemma seeded_seats_showtime_ids:
  "s \<in> set seeded_seats \<Longrightarrow> Seat_showtime_id s \<in> {1, 2, 3, 4, 5, 6, 7, 8, 9}"
  by (auto simp: seeded_seats_def seat_block_def)

lemma distinct_seeded_seat_keys:
  "distinct (map (\<lambda>s. (Seat_showtime_id s, Seat_seat_label s)) seeded_seats)"
proof -
  have b: "\<And>sid m. map (\<lambda>s. (Seat_showtime_id s, Seat_seat_label s)) (seat_block sid m) =
      map (Pair sid) grid_labels"
  proof -
    fix sid m
    have "map (\<lambda>s. (Seat_showtime_id s, Seat_seat_label s)) (seat_block sid m) =
      map (Pair sid) (map snd (enumerate m grid_labels))"
      by (simp add: seat_block_def comp_def del: map_snd_enumerate)
    then show "map (\<lambda>s. (Seat_showtime_id s, Seat_seat_label s)) (seat_block sid m) =
      map (Pair sid) grid_labels" by simp
  qed
  have d: "\<And>sid. distinct (map (Pair sid) grid_labels)"
    by (simp add: distinct_map distinct_grid_labels inj_on_def)
  show ?thesis
    by (auto simp: seeded_seats_def b d)
qed

lemma movies_seed_movie:
  "movies (seed_movie now md st) \<noteq> []"
  by (cases md) (simp add: seed_movie_eq)

lemma movies_seed_demo_data_not_Nil: "movies (seed_demo_data gph salt now_at st) \<noteq> []"
proof (cases "movies st = []")
  case False
  then show ?thesis by (simp add: seed_demo_data_def)
next
  case True
  have "movies (fold (\<lambda>km. seed_movie (now_at (fst km)) (snd km)) (enumerate 0 demo_movies) st) \<noteq> []"
    by (simp add: demo_movies_def movies_seed_movie)
  with True show ?thesis
    by (simp add: seed_demo_data_def Let_def split: option.split)
qed

text \<open>
  Claim C4. Seeding is idempotent. It returns the store as it is whenever the movie table
  is not empty, and it always leaves a non-empty movie table behind, so a second run after
  any first run (with whatever salt and clock) changes nothing. Started on the empty store
  and run twice, it leaves the three demo movies once each, in this order, the nine
  showtimes with keys 1 to 9, 360 seats with distinct keys and distinct pairs of showtime
  and label, the one demo user, and no booking.
\<close>

theorem seed_demo_data_idempotent:
  "seed_demo_data gph salt' now_at' (seed_demo_data gph salt now_at st) =
     seed_demo_data gph salt now_at st \<and>
   (movies st \<noteq> [] \<longrightarrow> seed_demo_data gph salt now_at st = st) \<and>
   map Movie_title (movies (seed_demo_data gph salt' now_at' (seed_demo_data gph salt now_at empty_store)))
     = [''Interstellar'', ''Inception'', ''The Dark Knight''] \<and>
   showtimes (seed_demo_data gph salt' now_at' (seed_demo_data gph salt now_at empty_store))
     = seeded_showtimes now_at \<and>
   map Showtime_id (seeded_showtimes now_at) = [1, 2, 3, 4, 5, 6, 7, 8, 9] \<and>
   seats (seed_demo_data gph salt' now_at' (seed_demo_data gph salt now_at empty_store)) = seeded_seats \<and>
   length seeded_seats = 360 \<and>
   distinct (map Seat_id seeded_seats) \<and>
   distinct (map (\<lambda>s. (Seat_showtime_id s, Seat_seat_label s)) seeded_seats) \<and>
   users (seed_demo_data gph salt' now_at' (seed_demo_data gph salt now_at empty_store))
     = [demo_user gph salt 1] \<and>
   bookings (seed_demo_data gph salt' now_at' (seed_demo_data gph salt now_at empty_store)) = []"
proof -
  have idem: "\<And>st. seed_demo_data gph salt' now_at' (seed_demo_data gph salt now_at st) =
     seed_demo_data gph salt now_at st"
    by (rule seed_demo_data_nonempty) (rule movies_seed_demo_data_not_Nil)
  have once: "seed_demo_data gph salt now_at empty_store =
     \<lparr>users = [demo_user gph salt 1], movies = seeded_movies, showtimes = seeded_showtimes now_at,
      seats = seeded_seats, bookings = []\<rparr>"
    by (subst seed_demo_data_empty_catalogue)
       (simp_all add: empty_store_def user_by_email_def next_id_Nil)
  have titles: "map Movie_title seeded_movies = [''Interstellar'', ''Inception'', ''The Dark Knight'']"
    by (simp add: seeded_movies_def demo_movies_def)
  show ?thesis
    unfolding idem
    by (simp add: once titles seed_demo_data_nonempty seeded_showtime_ids length_seeded_seats
        distinct_seeded_seat_ids distinct_seeded_seat_keys)
qed

text \<open>The example store has a movie, so seeding leaves it alone.\<close>

theorem seed_demo_data_idempotent_witness:
  "movies example_store \<noteq> [] \<and>
   seed_demo_data example_hash ''s1'' half_past example_store = example_store"
proof -
  have "movies example_store \<noteq> []" by code_simp
  with seed_demo_data_idempotent[of example_hash "''s2''" half_past "''s1''" half_past example_store]
  show ?thesis by blast
qed

lemma hour_floor_bounds:
  "hour_floor t \<le> t" "t < hour_floor t + hour" "hour_floor t mod hour = 0"
  by (simp_all add: hour_floor_def hour_def)

lemma less_3_cases: "k < 3 \<Longrightarrow> k = 0 \<or> k = 1 \<or> k = (2::nat)"
  by arith

text \<open>
  Claim C5, as the code has it. Seeding a store with an empty catalogue creates three
  movies, and the \<open>k\<close>-th of them receives exactly three showtimes, in this order: prices
  10, 12 and 14 (two more at each index), the first start two hours after the clock
  reading of that movie's pass truncated to the whole hour (minutes, seconds and
  microseconds set to zero), and each further start three hours after the one before. The
  truncated reading is the last whole hour not after the reading; it is the reading itself
  only when seeding happens on the whole hour.
\<close>

theorem seed_showtimes_schedule:
  assumes "movies st = []" "showtimes st = []" "seats st = []"
  shows "length (movies (seed_demo_data gph salt now_at st)) = 3 \<and>
     (\<forall>k < 3.
        map (\<lambda>sh. (Showtime_start_time sh, Showtime_ticket_price sh))
          (filter (\<lambda>sh. Showtime_movie_id sh = Movie_id (movies (seed_demo_data gph salt now_at st) ! k))
             (showtimes (seed_demo_data gph salt now_at st))) =
          [(hour_floor (now_at k) + 2 * hour, 10),
           (hour_floor (now_at k) + 2 * hour + 3 * hour, 10 + 2),
           (hour_floor (now_at k) + 2 * hour + 3 * hour + 3 * hour, 10 + 2 + 2)] \<and>
        hour_floor (now_at k) \<le> now_at k \<and> now_at k < hour_floor (now_at k) + hour \<and>
        hour_floor (now_at k) mod hour = 0 \<and>
        (now_at k mod hour = 0 \<longrightarrow> hour_floor (now_at k) = now_at k))"
proof -
  have m: "movies (seed_demo_data gph salt now_at st) = seeded_movies"
    and s: "showtimes (seed_demo_data gph salt now_at st) = seeded_showtimes now_at"
    by (simp_all add: seed_demo_data_empty_catalogue[OF assms])
  have l: "length seeded_movies = 3"
    by (simp add: seeded_movies_def demo_movies_def)
  have ids: "Movie_id (seeded_movies ! 0) = 1" "Movie_id (seeded_movies ! Suc 0) = 2"
      "Movie_id (seeded_movies ! 2) = 3"
    by (simp_all add: seeded_movies_def demo_movies_def)
  have "map (\<lambda>sh. (Showtime_start_time sh, Showtime_ticket_price sh))
          (filter (\<lambda>sh. Showtime_movie_id sh = Movie_id (seeded_movies ! k)) (seeded_showtimes now_at)) =
          [(hour_floor (now_at k) + 2 * hour, 10),
           (hour_floor (now_at k) + 2 * hour + 3 * hour, 10 + 2),
           (hour_floor (now_at k) + 2 * hour + 3 * hour + 3 * hour, 10 + 2 + 2)]"
    if "k < 3" for k
    using less_3_cases[OF that] by (elim disjE) (simp_all add: ids seeded_showtimes_def)
  then show ?thesis
    by (simp add: m s l hour_floor_bounds) (simp add: hour_floor_def)
qed

text \<open>Seeding at half past midnight: the second movie's showtimes start at 2:00, 5:00 and 8:00.\<close>

theorem seed_showtimes_schedule_witness:
  "map (\<lambda>sh. (Showtime_start_time sh, Showtime_ticket_price sh))
     (filter (\<lambda>sh. Showtime_movie_id sh =
                Movie_id (movies (seed_demo_data example_hash ''s1'' half_past empty_store) ! 1))
        (showtimes (seed_demo_data example_hash ''s1'' half_past empty_store))) =
     [(7200000000, 10), (18000000000, 12), (28800000000, 14)]"
proof -
  have e: "movies empty_store = []" "showtimes empty_store = []" "seats empty_store = []"
    by (simp_all add: empty_store_def)
  have k: "(1::nat) < 3" by simp
  from seed_showtimes_schedule[OF e, of example_hash "''s1''" half_past] k
  have "map (\<lambda>sh. (Showtime_start_time sh, Showtime_ticket_price sh))
     (filter (\<lambda>sh. Showtime_movie_id sh =
                Movie_id (movies (seed_demo_data example_hash ''s1'' half_past empty_store) ! 1))
        (showtimes (seed_demo_data example_hash ''s1'' half_past empty_store))) =
     [(hour_floor (half_past 1) + 2 * hour, 10),
      (hour_floor (half_past 1) + 2 * hour + 3 * hour, 10 + 2),
      (hour_floor (half_past 1) + 2 * hour + 3 * hour + 3 * hour, 10 + 2 + 2)]"
    by blast
  then show ?thesis by (simp add: hour_floor_def half_past_def hour_def)
qed

text \<open>
  Seeding at half past midnight, the first showtime does not start two hours after the
  seeding time (2:30) but at 2:00.
\<close>

theorem seed_first_start_time_counterexample:
  "Showtime_start_time (hd (showtimes (seed_demo_data example_hash ''s1'' half_past empty_store)))
     \<noteq> half_past 0 + 2 * hour"
proof -
  have e: "movies empty_store = []" "showtimes empty_store = []" "seats empty_store = []"
    by (simp_all add: empty_store_def)
  show ?thesis
    by (simp add: seed_demo_data_empty_catalogue[OF e] seeded_showtimes_def hour_floor_def
        half_past_def hour_def)
qed

text \<open>
  Claim C6. \<open>create_seats_for_showtime\<close> with its default grid appends to the seat table
  one unbooked seat of the given showtime for each of the forty labels A1 to E8 (the rows
  A to E crossed with the columns 1 to 8, all different), with fresh consecutive keys. In
  the store that seeding makes from an empty catalogue, the seats of every showtime are
  exactly these forty labels, all unbooked; seat keys are distinct, showtime keys are
  distinct, and every seat refers to one showtime of the table.
\<close>

theorem seeded_seat_grid:
  "seats (create_seats_for_showtime showtime 5 8 st) =
     seats st @
     map (\<lambda>il. \<lparr>Seat_id = fst il, Seat_showtime_id = Showtime_id showtime,
                 Seat_seat_label = snd il, Seat_is_booked = False\<rparr>)
       (enumerate (next_id (map Seat_id (seats st))) grid_labels) \<and>
   grid_labels = concat (map (\<lambda>r. map (\<lambda>c. [r, c]) ''12345678'') ''ABCDE'') \<and>
   length grid_labels = 40 \<and> distinct grid_labels \<and>
   (movies st = [] \<and> showtimes st = [] \<and> seats st = [] \<longrightarrow>
      (\<forall>sh \<in> set (showtimes (seed_demo_data gph salt now_at st)).
         map (\<lambda>s. (Seat_seat_label s, Seat_is_booked s))
           (filter (\<lambda>s. Seat_showtime_id s = Showtime_id sh)
              (seats (seed_demo_data gph salt now_at st))) = map (\<lambda>l. (l, False)) grid_labels) \<and>
      distinct (map Seat_id (seats (seed_demo_data gph salt now_at st))) \<and>
      distinct (map Showtime_id (showtimes (seed_demo_data gph salt now_at st))) \<and>
      (\<forall>s \<in> set (seats (seed_demo_data gph salt now_at st)).
         Seat_showtime_id s \<in> Showtime_id ` set (showtimes (seed_demo_data gph salt now_at st))))"
proof (intro conjI impI)
  show "seats (create_seats_for_showtime showtime 5 8 st) =
     seats st @
     map (\<lambda>il. \<lparr>Seat_id = fst il, Seat_showtime_id = Showtime_id showtime,
                 Seat_seat_label = snd il, Seat_is_booked = False\<rparr>)
       (enumerate (next_id (map Seat_id (seats st))) grid_labels)"
    by (simp add: create_seats_for_showtime_eq seat_block_def)
next
  assume a: "movies st = [] \<and> showtimes st = [] \<and> seats st = []"
  then have sh: "showtimes (seed_demo_data gph salt now_at st) = seeded_showtimes now_at"
    and se: "seats (seed_demo_data gph salt now_at st) = seeded_seats"
    by (simp_all add: seed_demo_data_empty_catalogue)
  have f: "\<And>k. filter (\<lambda>s. Seat_showtime_id s = k) seeded_seats =
      concat (map (\<lambda>j. if j + 1 = k then seat_block (j + 1) (40 * j + 1) else [])
        [0, 1, 2, 3, 4, 5, 6, 7, 8])"
    by (simp add: seeded_seats_def filter_seat_block)
  show "\<forall>sh \<in> set (showtimes (seed_demo_data gph salt now_at st)).
         map (\<lambda>s. (Seat_seat_label s, Seat_is_booked s))
           (filter (\<lambda>s. Seat_showtime_id s = Showtime_id sh)
              (seats (seed_demo_data gph salt now_at st))) = map (\<lambda>l. (l, False)) grid_labels"
    unfolding sh se by (simp add: seeded_showtimes_def f seat_block_labels)
  show "distinct (map Seat_id (seats (seed_demo_data gph salt now_at st)))"
    unfolding se by (rule distinct_seeded_seat_ids)
  show "distinct (map Showtime_id (showtimes (seed_demo_data gph salt now_at st)))"
    unfolding sh by (simp add: seeded_showtime_ids)
  show "\<forall>s \<in> set (seats (seed_demo_data gph salt now_at st)).
         Seat_showtime_id s \<in> Showtime_id ` set (showtimes (seed_demo_data gph salt now_at st))"
    unfolding sh se using seeded_seats_showtime_ids
    by (simp add: set_map[symmetric] seeded_showtime_ids del: set_map)
qed (simp_all add: grid_labels_product length_grid_labels distinct_grid_labels)

text \<open>The seats of showtime 2 after seeding the empty store.\<close>

theorem seeded_seat_grid_witness:
  "map (\<lambda>s. (Seat_seat_label s, Seat_is_booked s))
     (filter (\<lambda>s. Seat_showtime_id s = 2)
        (seats (seed_demo_data example_hash ''s1'' half_past empty_store))) =
     map (\<lambda>l. (l, False)) grid_labels"
proof -
  let ?S = "seed_demo_data example_hash ''s1'' half_past empty_store"
  have e: "movies empty_store = []" "showtimes empty_store = []" "seats empty_store = []"
    by (simp_all add: empty_store_def)
  have mem: "\<lparr>Showtime_id = 2, Showtime_movie_id = 1,
       Showtime_start_time = hour_floor (half_past 0) + 5 * hour, Showtime_ticket_price = 12\<rparr>
     \<in> set (showtimes ?S)"
    by (simp add: seed_demo_data_empty_catalogue[OF e] seeded_showtimes_def)
  from seeded_seat_grid[where st = empty_store and gph = example_hash and salt = "''s1''"
      and now_at = half_past] e
  have "\<forall>sh \<in> set (showtimes ?S).
         map (\<lambda>s. (Seat_seat_label s, Seat_is_booked s))
           (filter (\<lambda>s. Seat_showtime_id s = Showtime_id sh) (seats ?S)) =
         map (\<lambda>l. (l, False)) grid_labels"
    by blast
  from bspec[OF this mem] show ?thesis by simp
qed

section \<open>Properties of the reachable stores\<close>

subsection \<open>Normalising an email address twice\<close>

lemma lower_char_idem: "lower_char (lower_char c) = lower_char c"
  by (auto simp: lower_char_def Let_def)

lemma isspace_lower_char: "isspace (lower_char c) = isspace c"
  by (auto simp: lower_char_def isspace_def Let_def)

lemma rstrip_Cons:
  "rev (dropWhile P (rev (x # xs))) =
     (if (\<forall>y \<in> set xs. P y) \<and> P x then [] else x # rev (dropWhile P (rev xs)))"
  by (auto simp: dropWhile_append)

lemma dropWhile_rstrip:
  assumes "dropWhile P xs = xs"
  shows "dropWhile P (rev (dropWhile P (rev xs))) = rev (dropWhile P (rev xs))"
proof (cases xs)
  case Nil
  then show ?thesis by simp
next
  case (Cons x xs')
  from assms have "xs = [] \<or> \<not> P (hd xs)" by (simp only: dropWhile_eq_self_iff)
  with Cons have "\<not> P x" by simp
  then show ?thesis
    unfolding Cons rstrip_Cons by simp
qed

lemma strip_idem: "strip (strip s) = strip s"
proof -
  let ?d = "dropWhile isspace s"
  have "dropWhile isspace (strip s) = strip s"
    unfolding strip_def by (rule dropWhile_rstrip) simp
  then show ?thesis
    by (simp add: strip_def)
qed

lemma strip_lower: "strip (lower s) = lower (strip s)"
  by (simp add: strip_def lower_def dropWhile_map comp_def isspace_lower_char rev_map)

lemma lower_idem: "lower (lower s) = lower s"
  by (simp add: lower_def lower_char_idem)

lemma normalize_email_idem: "normalize_email (normalize_email e) = normalize_email e"
  by (simp add: normalize_email_def strip_lower strip_idem lower_idem)

lemma normalize_demo: "normalize_email ''demo@example.com'' = ''demo@example.com''"
  by code_simp

lemma strip_Nil: "strip [] = []"
  by (simp add: strip_def)

subsection \<open>What one operation can do to the store\<close>

lemma book_tickets_effect:
  "snd (book_tickets now st sess showtime_id req) = st \<or>
   (\<exists>u sh selected. selected \<noteq> [] \<and> get_showtime st showtime_id = Some sh \<and>
      current_user st sess = Some u \<and> selected = form_getlist (req_form req) ''seats'' \<and>
      length (matched_seats st (Showtime_id sh) selected) = length selected \<and>
      (\<forall>x \<in> set (matched_seats st (Showtime_id sh) selected). \<not> Seat_is_booked x) \<and>
      snd (book_tickets now st sess showtime_id req) = booked_store now u sh selected st)"
proof (cases "current_user st sess")
  case None
  then show ?thesis by (simp add: book_tickets_def)
next
  case (Some u)
  show ?thesis
  proof (cases "get_showtime st showtime_id")
    case None
    with Some show ?thesis by (simp add: book_tickets_def)
  next
    case sh: (Some sh)
    let ?sel = "form_getlist (req_form req) ''seats''"
    show ?thesis
    proof (cases "?sel \<noteq> [] \<and> length (matched_seats st (Showtime_id sh) ?sel) = length ?sel \<and>
        (\<forall>x \<in> set (matched_seats st (Showtime_id sh) ?sel). \<not> Seat_is_booked x)")
      case True
      then have "book_tickets now st sess showtime_id req =
         (Redirect [(''Booking confirmed for seats: '' @ join '', '' ?sel, ''success'')] EP_my_bookings,
          booked_store now u sh ?sel st)"
        using Some sh by (intro book_tickets_accept) auto
      with True Some sh show ?thesis by auto
    next
      case False
      then have "snd (book_tickets now st sess showtime_id req) = st"
        using Some sh by (auto simp: book_tickets_def Let_def list_ex_iff)
      then show ?thesis ..
    qed
  qed
qed

lemma register_effect:
  "snd (register gph salt st req) = st \<or>
   (\<exists>name email password. name \<noteq> [] \<and> email \<noteq> [] \<and> password \<noteq> [] \<and>
      name = strip (form_get (req_form req) ''name'' []) \<and>
      email = normalize_email (form_get (req_form req) ''email'' []) \<and>
      password = form_get (req_form req) ''password'' [] \<and>
      req_method req = POST \<and> user_by_email st email = None \<and>
      snd (register gph salt st req) = st\<lparr>users := users st @ [new_user gph salt st name email password]\<rparr>)"
  by (auto simp: register_def Let_def new_user_def split: option.split)

lemma get_showtime_id: "get_showtime st sid = Some sh \<Longrightarrow> Showtime_id sh = sid"
  by (auto simp: get_showtime_def find_Some_iff)

lemma exec_effect:
  "exec gph op st = st \<or>
   (\<exists>now u sh selected. selected \<noteq> [] \<and> get_showtime st (Showtime_id sh) = Some sh \<and>
      length (matched_seats st (Showtime_id sh) selected) = length selected \<and>
      (\<forall>x \<in> set (matched_seats st (Showtime_id sh) selected). \<not> Seat_is_booked x) \<and>
      exec gph op st = booked_store now u sh selected st) \<or>
   (\<exists>salt name email password. name \<noteq> [] \<and> email \<noteq> [] \<and> password \<noteq> [] \<and>
      normalize_email email = email \<and> user_by_email st email = None \<and>
      exec gph op st = st\<lparr>users := users st @ [new_user gph salt st name email password]\<rparr>) \<or>
   (\<exists>salt now_at. movies st = [] \<and> exec gph op st = seed_demo_data gph salt now_at st) \<or>
   (\<exists>salt now_at. exec gph op st = seed_demo_data gph salt now_at empty_store)"
proof (cases op)
  case (Op_book_tickets now sess showtime_id req)
  from book_tickets_effect[of now st sess showtime_id req] show ?thesis
  proof
    assume "snd (book_tickets now st sess showtime_id req) = st"
    with Op_book_tickets show ?thesis by simp
  next
    assume "\<exists>u sh selected. selected \<noteq> [] \<and> get_showtime st showtime_id = Some sh \<and>
      current_user st sess = Some u \<and> selected = form_getlist (req_form req) ''seats'' \<and>
      length (matched_seats st (Showtime_id sh) selected) = length selected \<and>
      (\<forall>x \<in> set (matched_seats st (Showtime_id sh) selected). \<not> Seat_is_booked x) \<and>
      snd (book_tickets now st sess showtime_id req) = booked_store now u sh selected st"
    then obtain u sh selected where *: "selected \<noteq> []" "get_showtime st showtime_id = Some sh"
      "length (matched_seats st (Showtime_id sh) selected) = length selected"
      "\<forall>x \<in> set (matched_seats st (Showtime_id sh) selected). \<not> Seat_is_booked x"
      "snd (book_tickets now st sess showtime_id req) = booked_store now u sh selected st"
      by blast
    from *(2) have "get_showtime st (Showtime_id sh) = Some sh"
      by (simp add: get_showtime_id)
    with * Op_book_tickets show ?thesis
      by (intro disjI2 disjI1 exI[of _ now] exI[of _ u] exI[of _ sh] exI[of _ selected]) simp
  qed
next
  case (Op_register salt req)
  from register_effect[of gph salt st req] show ?thesis
  proof
    assume "snd (register gph salt st req) = st"
    with Op_register show ?thesis by simp
  next
    assume "\<exists>name email password. name \<noteq> [] \<and> email \<noteq> [] \<and> password \<noteq> [] \<and>
      name = strip (form_get (req_form req) ''name'' []) \<and>
      email = normalize_email (form_get (req_form req) ''email'' []) \<and>
      password = form_get (req_form req) ''password'' [] \<and>
      req_method req = POST \<and> user_by_email st email = None \<and>
      snd (register gph salt st req) = st\<lparr>users := users st @ [new_user gph salt st name email password]\<rparr>"
    then obtain name email password where *: "name \<noteq> []" "email \<noteq> []" "password \<noteq> []"
      "email = normalize_email (form_get (req_form req) ''email'' [])"
      "user_by_email st email = None"
      "snd (register gph salt st req) = st\<lparr>users := users st @ [new_user gph salt st name email password]\<rparr>"
      by blast
    from *(4) have "normalize_email email = email"
      by (simp add: normalize_email_idem)
    with * Op_register show ?thesis
      by (intro disjI2 disjI1 exI[of _ salt] exI[of _ name] exI[of _ email] exI[of _ password]) simp
  qed
next
  case (Op_seed_demo_data salt now_at)
  show ?thesis
  proof (cases "movies st = []")
    case True
    with Op_seed_demo_data show ?thesis by auto
  next
    case False
    with Op_seed_demo_data show ?thesis by (simp add: seed_demo_data_nonempty)
  qed
next
  case (Op_init_db salt now_at)
  then show ?thesis by (auto simp: init_db_command_def)
qed (simp_all add: home_def movie_detail_def showtime_detail_def my_bookings_def split: option.split)

subsection \<open>Invariants\<close>

text \<open>
  Every store the application can reach from the empty database either has no movie, no
  showtime and no seat, or has been seeded.
\<close>

lemma reachable_catalogue_ok: "reachable gph st \<Longrightarrow> catalogue_ok st"
proof (induction rule: reachable.induct)
  case reachable_empty
  show ?case by (simp add: catalogue_ok_def empty_store_def)
next
  case (reachable_exec st op)
  from exec_effect[of gph op st] reachable_exec.IH show ?case
    by (elim disjE exE conjE)
       (auto simp: catalogue_ok_def booked_store_def dest: movies_seed_demo_data_not_Nil[THEN notE, rotated])
qed

text \<open>
  Induction over the reachable stores by the effect of the last operation: a successful
  booking, a successful registration, or seeding an empty catalogue (which is also what
  the \<open>init-db\<close> command does, from the empty store).
\<close>

lemma reachable_effects [consumes 1, case_names empty book register seed]:
  assumes "reachable gph st"
    and "P empty_store"
    and "\<And>st now u sh selected. reachable gph st \<Longrightarrow> P st \<Longrightarrow> selected \<noteq> [] \<Longrightarrow>
           get_showtime st (Showtime_id sh) = Some sh \<Longrightarrow>
           length (matched_seats st (Showtime_id sh) selected) = length selected \<Longrightarrow>
           (\<forall>x \<in> set (matched_seats st (Showtime_id sh) selected). \<not> Seat_is_booked x) \<Longrightarrow>
           P (booked_store now u sh selected st)"
    and "\<And>st salt name email password. reachable gph st \<Longrightarrow> P st \<Longrightarrow>
           name \<noteq> [] \<Longrightarrow> email \<noteq> [] \<Longrightarrow> password \<noteq> [] \<Longrightarrow>
           normalize_email email = email \<Longrightarrow> user_by_email st email = None \<Longrightarrow>
           P (st\<lparr>users := users st @ [new_user gph salt st name email password]\<rparr>)"
    and "\<And>st salt now_at. reachable gph st \<Longrightarrow> P st \<Longrightarrow>
           movies st = [] \<Longrightarrow> showtimes st = [] \<Longrightarrow> seats st = [] \<Longrightarrow>
           P (seed_demo_data gph salt now_at st)"
  shows "P st"
  using assms(1)
proof (induction rule: reachable.induct)
  case reachable_empty
  show ?case by (rule assms(2))
next
  case (reachable_exec st op)
  have e: "movies empty_store = []" "showtimes empty_store = []" "seats empty_store = []"
    by (simp_all add: empty_store_def)
  from exec_effect[of gph op st] show ?case
  proof (elim disjE exE conjE)
    assume "exec gph op st = st"
    with reachable_exec.IH show ?thesis by simp
  next
    fix now u sh selected
    assume "selected \<noteq> []" "get_showtime st (Showtime_id sh) = Some sh"
      "length (matched_seats st (Showtime_id sh) selected) = length selected"
      "\<forall>x \<in> set (matched_seats st (Showtime_id sh) selected). \<not> Seat_is_booked x"
      "exec gph op st = booked_store now u sh selected st"
    with assms(3)[OF reachable_exec.hyps reachable_exec.IH] show ?thesis by simp
  next
    fix salt name email password
    assume "name \<noteq> []" "email \<noteq> []" "password \<noteq> []" "normalize_email email = email"
      "user_by_email st email = None"
      "exec gph op st = st\<lparr>users := users st @ [new_user gph salt st name email password]\<rparr>"
    with assms(4)[OF reachable_exec.hyps reachable_exec.IH] show ?thesis by simp
  next
    fix salt now_at
    assume m: "movies st = []" and x: "exec gph op st = seed_demo_data gph salt now_at st"
    from reachable_catalogue_ok[OF reachable_exec.hyps] m
    have "showtimes st = []" "seats st = []" by (simp_all add: catalogue_ok_def)
    with assms(5)[OF reachable_exec.hyps reachable_exec.IH m] x show ?thesis by simp
  next
    fix salt now_at
    assume "exec gph op st = seed_demo_data gph salt now_at empty_store"
    with assms(5)[OF reachable.reachable_empty assms(2) e] show ?thesis by simp
  qed
qed

subsection \<open>Splitting the label column\<close>

lemma split_on_no_sep: "c \<notin> set x \<Longrightarrow> split_on c x = [x]"
  by (induction x) auto

lemma split_on_append: "c \<notin> set x \<Longrightarrow> split_on c (x @ c # rest) = x # split_on c rest"
  by (induction x) auto

lemma split_on_join:
  "ls \<noteq> [] \<Longrightarrow> \<forall>l \<in> set ls. c \<notin> set l \<Longrightarrow> split_on c (join [c] ls) = ls"
proof (induction "[c]" ls rule: join.induct)
  case 1
  then show ?case by simp
next
  case (2 x)
  then show ?case by (simp add: split_on_no_sep)
next
  case (3 x y ys)
  then show ?case by (simp add: split_on_append)
qed

lemma comma_free_grid_labels: "l \<in> set grid_labels \<Longrightarrow> CHR '','' \<notin> set l"
  by (auto simp: grid_labels_def)

subsection \<open>Requests with a repeated label\<close>

lemma matched_labels_distinct:
  assumes "seat_keys_distinct st"
  shows "distinct (map Seat_seat_label (matched_seats st sid selected))"
proof -
  have "distinct (map (\<lambda>s. (Seat_showtime_id s, Seat_seat_label s)) (matched_seats st sid selected))"
    using assms unfolding seat_keys_distinct_def matched_seats_def by (rule distinct_map_filter)
  moreover have "map (\<lambda>s. (Seat_showtime_id s, Seat_seat_label s)) (matched_seats st sid selected) =
      map (Pair sid) (map Seat_seat_label (matched_seats st sid selected))"
    by (simp add: matched_seats_def)
  ultimately show ?thesis
    by (simp only: distinct_map) 
qed

lemma matched_labels_subset: "set (map Seat_seat_label (matched_seats st sid selected)) \<subseteq> set selected"
  by (auto simp: matched_seats_def)

lemma length_matched_le:
  assumes "seat_keys_distinct st"
  shows "length (matched_seats st sid selected) \<le> card (set selected)"
proof -
  have "length (matched_seats st sid selected) = card (set (map Seat_seat_label (matched_seats st sid selected)))"
    using matched_labels_distinct[OF assms, of sid selected] by (simp add: distinct_card del: set_map)
  also have "\<dots> \<le> card (set selected)"
    by (rule card_mono[OF _ matched_labels_subset]) simp
  finally show ?thesis .
qed

lemma duplicates_match_fewer:
  assumes "seat_keys_distinct st" "\<not> distinct selected"
  shows "length (matched_seats st sid selected) < length selected"
proof -
  have "card (set selected) < length selected"
    using assms(2) card_distinct[of selected] card_length[of selected] by fastforce
  with length_matched_le[OF assms(1), of sid selected] show ?thesis by simp
qed

lemma full_match_labels:
  assumes "seat_keys_distinct st" "length (matched_seats st sid selected) = length selected"
  shows "distinct selected \<and> set selected = Seat_seat_label ` set (matched_seats st sid selected)"
proof -
  have d: "distinct selected"
    using duplicates_match_fewer[OF assms(1), of selected sid] assms(2) by auto
  have "card (set (map Seat_seat_label (matched_seats st sid selected))) = card (set selected)"
    using matched_labels_distinct[OF assms(1), of sid selected] assms(2) d
    by (simp add: distinct_card del: set_map)
  then have "set (map Seat_seat_label (matched_seats st sid selected)) = set selected"
    by (intro card_subset_eq matched_labels_subset) simp_all
  with d show ?thesis by simp
qed

lemma reachable_seats:
  assumes "reachable gph st"
  shows "seat_keys_distinct st \<and> (\<forall>s \<in> set (seats st). Seat_seat_label s \<in> set grid_labels)"
  using assms
proof (induction rule: reachable_effects)
  case empty
  show ?case by (simp add: seat_keys_distinct_def empty_store_def)
next
  case (book st now u sh selected)
  then show ?case
    by (auto simp: seat_keys_distinct_def booked_store_def comp_def if_distrib[of Seat_showtime_id]
        if_distrib[of Seat_seat_label] cong: if_cong)
next
  case (register st salt name email password)
  then show ?case by (simp add: seat_keys_distinct_def)
next
  case (seed st salt now_at)
  have "\<And>s. s \<in> set seeded_seats \<Longrightarrow> Seat_seat_label s \<in> set grid_labels"
    by (auto simp: seeded_seats_def seat_block_def in_set_enumerate_eq)
  then show ?case
    using seed by (simp add: seed_demo_data_empty_catalogue seat_keys_distinct_def distinct_seeded_seat_keys)
qed

lemma seeded_store_eq:
  "seeded_store =
     \<lparr>users = [demo_user example_hash ''s1'' 1], movies = seeded_movies,
      showtimes = seeded_showtimes half_past, seats = seeded_seats, bookings = []\<rparr>"
  unfolding seeded_store_def
  by (subst seed_demo_data_empty_catalogue)
     (simp_all add: empty_store_def user_by_email_def next_id_Nil)

lemma filter_seat_block_conj:
  "filter (\<lambda>s. Seat_showtime_id s = k \<and> Q s) (seat_block sid m) =
     (if sid = k then filter Q (seat_block sid m) else [])"
  by (simp add: seat_block_def filter_map comp_def)

lemma matched_seats_seeded:
  "matched_seats seeded_store 1 [''A1'', ''A2''] =
     [\<lparr>Seat_id = 1, Seat_showtime_id = 1, Seat_seat_label = ''A1'', Seat_is_booked = False\<rparr>,
      \<lparr>Seat_id = 2, Seat_showtime_id = 1, Seat_seat_label = ''A2'', Seat_is_booked = False\<rparr>]"
proof -
  have b: "filter (\<lambda>s. Seat_seat_label s \<in> set [''A1'', ''A2'']) (seat_block 1 1) =
     [\<lparr>Seat_id = 1, Seat_showtime_id = 1, Seat_seat_label = ''A1'', Seat_is_booked = False\<rparr>,
      \<lparr>Seat_id = 2, Seat_showtime_id = 1, Seat_seat_label = ''A2'', Seat_is_booked = False\<rparr>]"
    by (simp add: seat_block_def grid_labels_def)
  have "matched_seats seeded_store 1 [''A1'', ''A2''] =
      filter (\<lambda>s. Seat_seat_label s \<in> set [''A1'', ''A2'']) (seat_block 1 1)"
    unfolding matched_seats_def seeded_store_eq
    by (simp add: seeded_seats_def filter_seat_block_conj del: set_simps)
  with b show ?thesis by simp
qed

lemma reachable_bookings:
  assumes "reachable gph st"
  shows "\<forall>b \<in> set (bookings st). distinct (split_on CHR '','' (Booking_seat_labels b))"
  using assms
proof (induction rule: reachable_effects)
  case empty
  show ?case by (simp add: empty_store_def)
next
  case (book st now u sh selected)
  from reachable_seats[OF book.hyps(1)]
  have k: "seat_keys_distinct st" and g: "\<forall>s \<in> set (seats st). Seat_seat_label s \<in> set grid_labels"
    by simp_all
  from full_match_labels[OF k book.hyps(4)]
  have d: "distinct selected"
    and e: "set selected = Seat_seat_label ` set (matched_seats st (Showtime_id sh) selected)"
    by simp_all
  have "\<forall>l \<in> set selected. CHR '','' \<notin> set l"
  proof
    fix l
    assume "l \<in> set selected"
    with e obtain x where x: "x \<in> set (matched_seats st (Showtime_id sh) selected)"
      and l: "l = Seat_seat_label x" by auto
    from x have "x \<in> set (seats st)" by (simp add: matched_seats_def)
    with g l have "l \<in> set grid_labels" by simp
    then show "CHR '','' \<notin> set l" by (rule comma_free_grid_labels)
  qed
  with book.hyps(2) have "split_on CHR '','' (join '','' selected) = selected"
    by (simp add: split_on_join)
  with d book.IH show ?case
    by (simp add: booked_store_def)
next
  case (register st salt name email password)
  then show ?case by simp
next
  case (seed st salt now_at)
  then show ?case by (simp add: seed_demo_data_empty_catalogue)
qed

text \<open>
  Claim C10. Where no two seats of a showtime carry the same label, a list of labels that
  repeats a label matches fewer seats than it has entries, so a request with such a list
  on an existing showtime is rejected: the store is returned as it was, and a logged-in
  caller gets the redirect with the error message. Every store the application can reach
  from the empty database has that property of its seats, and in every such store the
  label column of every booking, split at the commas as \<open>str.split\<close> does, has no label
  twice.
\<close>

theorem duplicate_labels_rejected:
  "(seat_keys_distinct st \<and> \<not> distinct selected \<longrightarrow>
      length (matched_seats st sid selected) < length selected) \<and>
   (seat_keys_distinct st \<and> get_showtime st showtime_id = Some sh \<and>
    \<not> distinct (form_getlist (req_form req) ''seats'') \<longrightarrow>
      snd (book_tickets now st sess showtime_id req) = st \<and>
      (current_user st sess = Some u \<longrightarrow>
       book_tickets now st sess showtime_id req =
         (Redirect [(''One or more selected seats are no longer available. Please try again.'',
                     ''danger'')] (EP_showtime_detail (Showtime_id sh)), st))) \<and>
   (reachable gph st \<longrightarrow>
      seat_keys_distinct st \<and>
      (\<forall>b \<in> set (bookings st). distinct (split_on CHR '','' (Booking_seat_labels b))))"
proof (intro conjI impI)
  assume "seat_keys_distinct st \<and> \<not> distinct selected"
  then show "length (matched_seats st sid selected) < length selected"
    by (simp add: duplicates_match_fewer)
next
  let ?sel = "form_getlist (req_form req) ''seats''"
  assume a: "seat_keys_distinct st \<and> get_showtime st showtime_id = Some sh \<and> \<not> distinct ?sel"
  then have less: "length (matched_seats st (Showtime_id sh) ?sel) < length ?sel"
    by (simp add: duplicates_match_fewer)
  from a have ne: "?sel \<noteq> []" by auto
  from a less show "snd (book_tickets now st sess showtime_id req) = st"
    by (intro book_tickets_reject_store) auto
  assume "current_user st sess = Some u"
  with a less ne show "book_tickets now st sess showtime_id req =
        (Redirect [(''One or more selected seats are no longer available. Please try again.'',
                    ''danger'')] (EP_showtime_detail (Showtime_id sh)), st)"
    by (intro book_tickets_reject) auto
next
  assume "reachable gph st"
  then show "seat_keys_distinct st" by (simp add: reachable_seats)
next
  assume "reachable gph st"
  then show "\<forall>b \<in> set (bookings st). distinct (split_on CHR '','' (Booking_seat_labels b))"
    by (rule reachable_bookings)
qed

lemma seeded_session:
  "current_user seeded_store (Some 1) = Some (demo_user example_hash ''s1'' 1)"
  "get_showtime seeded_store 1 = Some (hd (seeded_showtimes half_past))"
  "Showtime_id (hd (seeded_showtimes half_past)) = 1"
  by (simp_all add: seeded_store_eq current_user_def load_user_def demo_user_def get_showtime_def
      seeded_showtimes_def)

lemma form_getlist_seats_request: "form_getlist (req_form (seats_request ls)) ''seats'' = ls"
  by (simp add: form_getlist_def seats_request_def comp_def)

lemma booked_seeded_store:
  "snd (book_tickets 0 seeded_store (Some 1) 1 (seats_request [''A1'', ''A2''])) =
     booked_store 0 (demo_user example_hash ''s1'' 1) (hd (seeded_showtimes half_past))
       [''A1'', ''A2''] seeded_store"
proof -
  let ?sh = "hd (seeded_showtimes half_past)"
  have ne: "[''A1'', ''A2''] \<noteq> ([] :: string list)" by simp
  have l: "length (matched_seats seeded_store (Showtime_id ?sh) [''A1'', ''A2'']) = length [''A1'', ''A2'']"
    unfolding seeded_session(3) matched_seats_seeded by simp
  have n: "\<forall>x \<in> set (matched_seats seeded_store (Showtime_id ?sh) [''A1'', ''A2'']). \<not> Seat_is_booked x"
    unfolding seeded_session(3) matched_seats_seeded by simp
  from book_tickets_accept[OF seeded_session(1,2) form_getlist_seats_request ne l n, of 0]
  show ?thesis by simp
qed

text \<open>
  Asking for A1 twice in the example store; and the booking of A1 and A2 made on the
  freshly seeded database.
\<close>

theorem duplicate_labels_rejected_witness:
  "length (matched_seats example_store 1 [''A1'', ''A1'']) < length [''A1'', ''A1''] \<and>
   book_tickets 0 example_store (Some 1) 1 (seats_request [''A1'', ''A1'']) =
     (Redirect [(''One or more selected seats are no longer available. Please try again.'',
                 ''danger'')] (EP_showtime_detail 1), example_store) \<and>
   seat_keys_distinct
     (exec example_hash (Op_book_tickets 0 (Some 1) 1 (seats_request [''A1'', ''A2'']))
        (exec example_hash (Op_seed_demo_data ''s1'' half_past) empty_store)) \<and>
   distinct (split_on CHR '','' (Booking_seat_labels (last (bookings
     (exec example_hash (Op_book_tickets 0 (Some 1) 1 (seats_request [''A1'', ''A2'']))
        (exec example_hash (Op_seed_demo_data ''s1'' half_past) empty_store))))))"
proof -
  let ?u = "hd (users example_store)" and ?sh = "hd (showtimes example_store)"
  let ?st = "exec example_hash (Op_book_tickets 0 (Some 1) 1 (seats_request [''A1'', ''A2'']))
        (exec example_hash (Op_seed_demo_data ''s1'' half_past) empty_store)"
  have k: "seat_keys_distinct example_store"
    and u: "current_user example_store (Some 1) = Some ?u"
    and sh: "get_showtime example_store 1 = Some ?sh"
    and id: "Showtime_id ?sh = 1"
    and dup: "\<not> distinct [''A1'', ''A1'' :: string]"
    and f: "form_getlist (req_form (seats_request [''A1'', ''A1''])) ''seats'' = [''A1'', ''A1'']"
    by code_simp+
  have r: "reachable example_hash ?st"
    by (intro reachable.intros)
  have "bookings ?st \<noteq> []"
    using booked_seeded_store by (simp add: seeded_store_def booked_store_def)
  then have m: "last (bookings ?st) \<in> set (bookings ?st)"
    by (rule last_in_set)
  note t = duplicate_labels_rejected[where st = example_store and selected = "[''A1'', ''A1'']"
      and sess = "Some 1" and u = ?u and showtime_id = 1 and sh = ?sh and sid = 1 and now = 0
      and req = "seats_request [''A1'', ''A1'']" and gph = example_hash]
  from t k dup have 1: "length (matched_seats example_store 1 [''A1'', ''A1'']) < length [''A1'', ''A1'']"
    by blast
  from t k u sh dup f have 2: "book_tickets 0 example_store (Some 1) 1 (seats_request [''A1'', ''A1'']) =
     (Redirect [(''One or more selected seats are no longer available. Please try again.'',
                 ''danger'')] (EP_showtime_detail 1), example_store)"
    by (simp add: id)
  from duplicate_labels_rejected[where gph = example_hash and st = ?st] r
  have 3: "seat_keys_distinct ?st"
    and "\<forall>b \<in> set (bookings ?st). distinct (split_on CHR '','' (Booking_seat_labels b))"
    by blast+
  with m have 4: "distinct (split_on CHR '','' (Booking_seat_labels (last (bookings ?st))))"
    by blast
  from 1 2 3 4 show ?thesis by blast
qed

section \<open>Properties of the accounts\<close>

lemma user_by_email_None: "user_by_email st e = None \<longleftrightarrow> e \<notin> User_email ` set (users st)"
  by (auto simp: user_by_email_def find_None_iff)

lemma user_by_email_unique:
  assumes "distinct (map User_email (users st))" "u \<in> set (users st)"
  shows "user_by_email st (User_email u) = Some u"
proof -
  from assms(2) obtain v where v: "user_by_email st (User_email u) = Some v"
    by (cases "user_by_email st (User_email u)") (auto simp: user_by_email_None)
  then have "v \<in> set (users st)" "User_email v = User_email u"
    by (auto simp: user_by_email_def find_Some_iff)
  with assms have "v = u"
    by (auto simp: distinct_map dest: inj_onD)
  with v show ?thesis by simp
qed

lemma reachable_emails: "reachable gph st \<Longrightarrow> emails_normalized st"
proof (induction rule: reachable_effects)
  case empty
  show ?case by (simp add: emails_normalized_def empty_store_def)
next
  case (book st now u sh selected)
  then show ?case by (simp add: emails_normalized_def booked_store_def)
next
  case (register st salt name email password)
  then show ?case
    by (auto simp: emails_normalized_def new_user_def user_by_email_None)
next
  case (seed st salt now_at)
  then show ?case
    by (auto simp: emails_normalized_def seed_demo_data_empty_catalogue demo_user_def
        normalize_demo user_by_email_None split: option.split)
qed

lemma same_letters_normalized:
  assumes "normalize_email e = e" "lower e' = lower e"
  shows "normalize_email e' = e"
proof -
  have l: "lower e = e"
    using assms(1) lower_idem[of "strip e"] by (simp add: normalize_email_def)
  have s: "strip e = e"
    using assms(1) strip_idem[of e] by (metis normalize_email_def strip_lower)
  have "normalize_email e' = strip (lower e')"
    by (simp add: normalize_email_def strip_lower)
  with assms(2) l s show ?thesis by simp
qed

text \<open>
  Claim C8. A registration request (a POST) is answered by the warning that all fields are
  required, with the store as it was, when the name or the email is empty after stripping
  (as the empty string is) or the password is empty. With all three present it is answered
  by the warning that the email is in use, with the store as it was, when some stored
  user's email is the submitted one up to letter case and surrounding blanks; stored
  emails are always normalized and pairwise different in a reachable store. Otherwise
  exactly one user row is appended, not an administrator, with the stripped name, the
  normalized email, and as its password column the library's salted hash of the
  password: the password itself enters the store only through that hash.
\<close>

theorem register_outcomes:
  assumes "req_method req = POST"
    and "name = form_get (req_form req) ''name'' []"
    and "email = form_get (req_form req) ''email'' []"
    and "password = form_get (req_form req) ''password'' []"
  shows "strip [] = [] \<and> normalize_email [] = [] \<and>
     (strip name = [] \<or> normalize_email email = [] \<or> password = [] \<longrightarrow>
        register gph salt st req =
          (Render [(''All fields are required.'', ''warning'')]
             (V_register (Some (strip name, normalize_email email))), st)) \<and>
     (strip name \<noteq> [] \<and> normalize_email email \<noteq> [] \<and> password \<noteq> [] \<and>
      list_all (\<lambda>u. normalize_email (User_email u) = User_email u) (users st) \<and>
      (\<exists>u \<in> set (users st). normalize_email (User_email u) = normalize_email email) \<longrightarrow>
        register gph salt st req =
          (Render [(''Email already in use.'', ''warning'')]
             (V_register (Some (strip name, normalize_email email))), st)) \<and>
     (strip name \<noteq> [] \<and> normalize_email email \<noteq> [] \<and> password \<noteq> [] \<and>
      (\<forall>u \<in> set (users st). User_email u \<noteq> normalize_email email) \<longrightarrow>
        register gph salt st req =
          (Redirect [(''Registration successful. Please log in.'', ''success'')] EP_login,
           st\<lparr>users := users st @
              [\<lparr>User_id = next_id (map User_id (users st)), User_name = strip name,
                User_email = normalize_email email, User_password_hash = gph salt password,
                User_is_admin = False\<rparr>]\<rparr>)) \<and>
     (reachable gph st \<longrightarrow>
        list_all (\<lambda>u. normalize_email (User_email u) = User_email u) (users st) \<and>
        distinct (map User_email (users st)))"
proof (intro conjI impI)
  show "strip [] = []" by (simp add: strip_def)
  show "normalize_email [] = []" by (simp add: normalize_email_def strip_def lower_def)
next
  assume "strip name = [] \<or> normalize_email email = [] \<or> password = []"
  then show "register gph salt st req =
          (Render [(''All fields are required.'', ''warning'')]
             (V_register (Some (strip name, normalize_email email))), st)"
    using assms by (auto simp: register_def Let_def)
next
  assume a: "strip name \<noteq> [] \<and> normalize_email email \<noteq> [] \<and> password \<noteq> [] \<and>
      list_all (\<lambda>u. normalize_email (User_email u) = User_email u) (users st) \<and>
      (\<exists>u \<in> set (users st). normalize_email (User_email u) = normalize_email email)"
  then obtain w where "w \<in> set (users st)" "User_email w = normalize_email email"
    by (auto simp: list_all_iff)
  then have "normalize_email email \<in> User_email ` set (users st)"
    by (metis imageI)
  then obtain v where "user_by_email st (normalize_email email) = Some v"
    by (cases "user_by_email st (normalize_email email)") (auto simp: user_by_email_None)
  with a show "register gph salt st req =
          (Render [(''Email already in use.'', ''warning'')]
             (V_register (Some (strip name, normalize_email email))), st)"
    using assms by (simp add: register_def Let_def)
next
  assume a: "strip name \<noteq> [] \<and> normalize_email email \<noteq> [] \<and> password \<noteq> [] \<and>
      (\<forall>u \<in> set (users st). User_email u \<noteq> normalize_email email)"
  then have "user_by_email st (normalize_email email) = None"
    by (auto simp: user_by_email_None)
  with a show "register gph salt st req =
          (Redirect [(''Registration successful. Please log in.'', ''success'')] EP_login,
           st\<lparr>users := users st @
              [\<lparr>User_id = next_id (map User_id (users st)), User_name = strip name,
                User_email = normalize_email email, User_password_hash = gph salt password,
                User_is_admin = False\<rparr>]\<rparr>)"
    using assms by (simp add: register_def Let_def)
next
  assume "reachable gph st"
  from reachable_emails[OF this]
  show "list_all (\<lambda>u. normalize_email (User_email u) = User_email u) (users st)"
    and "distinct (map User_email (users st))"
    by (simp_all add: emails_normalized_def)
qed

text \<open>
  Claim C9. In a store whose emails are normalized and pairwise different (every reachable
  store), a login request with a stored user's email in any letter case, with or without
  blanks around it, and a password that the library verifies against that user's hash
  succeeds and binds the session to that user. Every login request that does not succeed
  gets one and the same answer, the login page with the one message and the session as it
  was, whether no user has the submitted email or the password does not verify; and a
  request succeeds only for a stored user with the normalized email whose hash the
  password verifies.
\<close>

theorem login_outcomes:
  assumes "req_method req = POST"
    and "email = form_get (req_form req) ''email'' []"
    and "password = form_get (req_form req) ''password'' []"
  shows "(emails_normalized st \<and> u \<in> set (users st) \<and>
      (lower email = lower (User_email u) \<or> normalize_email email = User_email u) \<and>
      cph (User_password_hash u) password \<longrightarrow>
        (\<exists>target. login cph st sess req =
           (Redirect [(''Logged in successfully.'', ''success'')] target, Some (User_id u)))) \<and>
     ((\<forall>v \<in> set (users st). User_email v \<noteq> normalize_email email) \<longrightarrow>
        login cph st sess req =
          (Render [(''Invalid email or password.'', ''danger'')] V_login, sess)) \<and>
     (emails_normalized st \<and> u \<in> set (users st) \<and>
      (lower email = lower (User_email u) \<or> normalize_email email = User_email u) \<and>
      \<not> cph (User_password_hash u) password \<longrightarrow>
        login cph st sess req =
          (Render [(''Invalid email or password.'', ''danger'')] V_login, sess)) \<and>
     ((\<forall>v \<in> set (users st). User_email v = normalize_email email \<longrightarrow>
          \<not> cph (User_password_hash v) password) \<longrightarrow>
        login cph st sess req =
          (Render [(''Invalid email or password.'', ''danger'')] V_login, sess)) \<and>
     (login cph st sess req = (Render [(''Invalid email or password.'', ''danger'')] V_login, sess) \<or>
      (\<exists>v target. v \<in> set (users st) \<and> User_email v = normalize_email email \<and>
         cph (User_password_hash v) password \<and>
         login cph st sess req =
           (Redirect [(''Logged in successfully.'', ''success'')] target, Some (User_id v)))) \<and>
     (reachable gph st \<longrightarrow> emails_normalized st)"
proof -
  have found: "user_by_email st (normalize_email email) = Some u"
    if "emails_normalized st" "u \<in> set (users st)"
      "lower email = lower (User_email u) \<or> normalize_email email = User_email u"
  proof -
    from that(1,2) have "normalize_email (User_email u) = User_email u"
      by (simp add: emails_normalized_def list_all_iff)
    with that(3) have "normalize_email email = User_email u"
      by (auto dest: same_letters_normalized)
    moreover from that(1) have "distinct (map User_email (users st))"
      by (simp add: emails_normalized_def)
    ultimately show ?thesis
      using that(2) by (simp add: user_by_email_unique)
  qed
  have total: "login cph st sess req = (Render [(''Invalid email or password.'', ''danger'')] V_login, sess) \<or>
      (\<exists>v target. v \<in> set (users st) \<and> User_email v = normalize_email email \<and>
         cph (User_password_hash v) password \<and>
         login cph st sess req =
           (Redirect [(''Logged in successfully.'', ''success'')] target, Some (User_id v)))"
  proof (cases "user_by_email st (normalize_email email)")
    case None
    then show ?thesis
      using assms by (simp add: login_def Let_def invalid_credentials_def)
  next
    case (Some v)
    then have v: "v \<in> set (users st)" "User_email v = normalize_email email"
      by (auto simp: user_by_email_def find_Some_iff)
    show ?thesis
    proof (cases "cph (User_password_hash v) password")
      case True
      with Some v show ?thesis
        using assms by (intro disjI2 exI[of _ v]) (simp add: login_def Let_def)
    next
      case False
      with Some show ?thesis
        using assms by (simp add: login_def Let_def invalid_credentials_def)
    qed
  qed
  show ?thesis
  proof (intro conjI impI)
    assume a: "emails_normalized st \<and> u \<in> set (users st) \<and>
      (lower email = lower (User_email u) \<or> normalize_email email = User_email u) \<and>
      cph (User_password_hash u) password"
    with found have "user_by_email st (normalize_email email) = Some u" by simp
    with a show "\<exists>target. login cph st sess req =
           (Redirect [(''Logged in successfully.'', ''success'')] target, Some (User_id u))"
      using assms by (simp add: login_def Let_def)
  next
    assume "\<forall>v \<in> set (users st). User_email v \<noteq> normalize_email email"
    then have "user_by_email st (normalize_email email) = None"
      by (auto simp: user_by_email_None)
    then show "login cph st sess req =
          (Render [(''Invalid email or password.'', ''danger'')] V_login, sess)"
      using assms by (simp add: login_def Let_def invalid_credentials_def)
  next
    assume a: "emails_normalized st \<and> u \<in> set (users st) \<and>
      (lower email = lower (User_email u) \<or> normalize_email email = User_email u) \<and>
      \<not> cph (User_password_hash u) password"
    with found have "user_by_email st (normalize_email email) = Some u" by simp
    with a show "login cph st sess req =
          (Render [(''Invalid email or password.'', ''danger'')] V_login, sess)"
      using assms by (simp add: login_def Let_def invalid_credentials_def)
  next
    assume "\<forall>v \<in> set (users st). User_email v = normalize_email email \<longrightarrow>
          \<not> cph (User_password_hash v) password"
    with total show "login cph st sess req =
          (Render [(''Invalid email or password.'', ''danger'')] V_login, sess)"
      by blast
  next
    show "login cph st sess req = (Render [(''Invalid email or password.'', ''danger'')] V_login, sess) \<or>
      (\<exists>v target. v \<in> set (users st) \<and> User_email v = normalize_email email \<and>
         cph (User_password_hash v) password \<and>
         login cph st sess req =
           (Redirect [(''Logged in successfully.'', ''success'')] target, Some (User_id v)))"
      by (rule total)
  next
    assume "reachable gph st"
    then show "emails_normalized st" by (rule reachable_emails)
  qed
qed

text \<open>
  In the example store: an empty password; Alice's address in another letter case; a new
  address.
\<close>

theorem register_outcomes_witness:
  "register example_hash ''pepper'' example_store (account_request ''Bob'' ''bob@example.com'' []) =
     (Render [(''All fields are required.'', ''warning'')]
        (V_register (Some (''Bob'', ''bob@example.com''))), example_store) \<and>
   register example_hash ''pepper'' example_store
       (account_request ''Eve'' '' ALICE@Example.com '' ''hunter2'') =
     (Render [(''Email already in use.'', ''warning'')]
        (V_register (Some (''Eve'', ''alice@example.com''))), example_store) \<and>
   register example_hash ''pepper'' example_store
       (account_request '' Bob '' ''Bob@Example.com'' ''hunter2'') =
     (Redirect [(''Registration successful. Please log in.'', ''success'')] EP_login,
      example_store\<lparr>users := users example_store @
         [\<lparr>User_id = 2, User_name = ''Bob'', User_email = ''bob@example.com'',
           User_password_hash = ''pepper$2retnuh'', User_is_admin = False\<rparr>]\<rparr>)"
proof -
  let ?r1 = "account_request ''Bob'' ''bob@example.com'' []"
  let ?r2 = "account_request ''Eve'' '' ALICE@Example.com '' ''hunter2''"
  let ?r3 = "account_request '' Bob '' ''Bob@Example.com'' ''hunter2''"
  have p: "req_method ?r1 = POST" "req_method ?r2 = POST" "req_method ?r3 = POST"
    by (simp_all add: account_request_def)
  have g1: "''Bob'' = form_get (req_form ?r1) ''name'' []"
      "''bob@example.com'' = form_get (req_form ?r1) ''email'' []"
      "[] = form_get (req_form ?r1) ''password'' []"
    and g2: "''Eve'' = form_get (req_form ?r2) ''name'' []"
      "'' ALICE@Example.com '' = form_get (req_form ?r2) ''email'' []"
      "''hunter2'' = form_get (req_form ?r2) ''password'' []"
    and g3: "'' Bob '' = form_get (req_form ?r3) ''name'' []"
      "''Bob@Example.com'' = form_get (req_form ?r3) ''email'' []"
      "''hunter2'' = form_get (req_form ?r3) ''password'' []"
    by (simp_all add: account_request_def form_get_def)
  have v: "strip ''Bob'' = ''Bob''" "normalize_email ''bob@example.com'' = ''bob@example.com''"
      "strip ''Eve'' = ''Eve''" "normalize_email '' ALICE@Example.com '' = ''alice@example.com''"
      "strip '' Bob '' = ''Bob''" "normalize_email ''Bob@Example.com'' = ''bob@example.com''"
      "example_hash ''pepper'' ''hunter2'' = ''pepper$2retnuh''"
      "next_id (map User_id (users example_store)) = 2"
    by code_simp+
  have h2: "list_all (\<lambda>u. normalize_email (User_email u) = User_email u) (users example_store)"
      "\<exists>u \<in> set (users example_store). normalize_email (User_email u) = ''alice@example.com''"
    and h3: "\<forall>u \<in> set (users example_store). User_email u \<noteq> ''bob@example.com''"
    by code_simp+
  from register_outcomes[OF p(1) g1, of example_hash "''pepper''" example_store]
  have 1: "register example_hash ''pepper'' example_store ?r1 =
     (Render [(''All fields are required.'', ''warning'')]
        (V_register (Some (''Bob'', ''bob@example.com''))), example_store)"
    unfolding v by simp
  from register_outcomes[OF p(2) g2, of example_hash "''pepper''" example_store] h2
  have 2: "register example_hash ''pepper'' example_store ?r2 =
     (Render [(''Email already in use.'', ''warning'')]
        (V_register (Some (''Eve'', ''alice@example.com''))), example_store)"
    unfolding v by simp
  from register_outcomes[OF p(3) g3, of example_hash "''pepper''" example_store] h3
  have 3: "register example_hash ''pepper'' example_store ?r3 =
     (Redirect [(''Registration successful. Please log in.'', ''success'')] EP_login,
      example_store\<lparr>users := users example_store @
         [\<lparr>User_id = 2, User_name = ''Bob'', User_email = ''bob@example.com'',
           User_password_hash = ''pepper$2retnuh'', User_is_admin = False\<rparr>]\<rparr>)"
    unfolding v by simp
  from 1 2 3 show ?thesis by blast
qed

text \<open>
  Alice logs in with her address in capitals; an unknown address, a wrong password, and
  a wrong password with a blank before the address are answered alike.
\<close>

theorem login_outcomes_witness:
  "(\<exists>target. login example_check example_store None
       (account_request [] ''ALICE@Example.COM'' ''wonderland'') =
       (Redirect [(''Logged in successfully.'', ''success'')] target, Some 1)) \<and>
   login example_check example_store None (account_request [] ''mallory@example.com'' ''wonderland'') =
     (Render [(''Invalid email or password.'', ''danger'')] V_login, None) \<and>
   login example_check example_store None (account_request [] ''alice@example.com'' ''guess'') =
     (Render [(''Invalid email or password.'', ''danger'')] V_login, None) \<and>
   login example_check example_store None (account_request [] '' alice@example.com'' ''guess'') =
     (Render [(''Invalid email or password.'', ''danger'')] V_login, None)"
proof -
  let ?u = "hd (users example_store)"
  let ?r1 = "account_request [] ''ALICE@Example.COM'' ''wonderland''"
  let ?r2 = "account_request [] ''mallory@example.com'' ''wonderland''"
  let ?r3 = "account_request [] ''alice@example.com'' ''guess''"
  let ?r4 = "account_request [] '' alice@example.com'' ''guess''"
  have p: "req_method ?r1 = POST" "req_method ?r2 = POST" "req_method ?r3 = POST"
      "req_method ?r4 = POST"
    by (simp_all add: account_request_def)
  have g1: "''ALICE@Example.COM'' = form_get (req_form ?r1) ''email'' []"
      "''wonderland'' = form_get (req_form ?r1) ''password'' []"
    and g2: "''mallory@example.com'' = form_get (req_form ?r2) ''email'' []"
      "''wonderland'' = form_get (req_form ?r2) ''password'' []"
    and g3: "''alice@example.com'' = form_get (req_form ?r3) ''email'' []"
      "''guess'' = form_get (req_form ?r3) ''password'' []"
    and g4: "'' alice@example.com'' = form_get (req_form ?r4) ''email'' []"
      "''guess'' = form_get (req_form ?r4) ''password'' []"
    by (simp_all add: account_request_def form_get_def)
  have e: "emails_normalized example_store" and u: "?u \<in> set (users example_store)"
    and id: "User_id ?u = 1"
    and c1: "lower ''ALICE@Example.COM'' = lower (User_email ?u)"
    and c3: "lower ''alice@example.com'' = lower (User_email ?u)"
    and ok: "example_check (User_password_hash ?u) ''wonderland''"
    and bad: "\<not> example_check (User_password_hash ?u) ''guess''"
    and no: "\<forall>v \<in> set (users example_store). User_email v \<noteq> normalize_email ''mallory@example.com''"
    and all_bad: "\<forall>v \<in> set (users example_store).
        User_email v = normalize_email '' alice@example.com'' \<longrightarrow>
        \<not> example_check (User_password_hash v) ''guess''"
    by code_simp+
  from login_outcomes[OF p(1) g1, of example_store ?u example_check None] e u c1 ok
  have 1: "\<exists>target. login example_check example_store None ?r1 =
       (Redirect [(''Logged in successfully.'', ''success'')] target, Some 1)"
    by (simp add: id)
  from login_outcomes[OF p(2) g2, of example_store ?u example_check None] no
  have 2: "login example_check example_store None ?r2 =
     (Render [(''Invalid email or password.'', ''danger'')] V_login, None)"
    by blast
  from login_outcomes[OF p(3) g3, of example_store ?u example_check None] e u c3 bad
  have 3: "login example_check example_store None ?r3 =
     (Render [(''Invalid email or password.'', ''danger'')] V_login, None)"
    by blast
  from login_outcomes[OF p(4) g4, of example_store ?u example_check None] all_bad
  have 4: "login example_check example_store None ?r4 =
     (Render [(''Invalid email or password.'', ''danger'')] V_login, None)"
    by blast
  from 1 2 3 4 show ?thesis by blast
qed

section \<open>Properties of the seat map\<close>

lemma setdefault_append_keys:
  "map fst (setdefault_append k s rows) =
     (if k \<in> fst ` set rows then map fst rows else map fst rows @ [k])"
proof (induction rows)
  case Nil
  show ?case by simp
next
  case (Cons row rows)
  obtain k' xs where row: "row = (k', xs)" by (cases row)
  show ?case
  proof (cases "k' = k")
    case True
    then show ?thesis by (simp add: row)
  next
    case False
    then show ?thesis using Cons.IH by (simp add: row)
  qed
qed

lemma setdefault_append_map_of:
  "map_of (setdefault_append k s rows) =
     (map_of rows)(k \<mapsto> (case map_of rows k of None \<Rightarrow> [] | Some xs \<Rightarrow> xs) @ [s])"
  by (induction rows) (auto split: prod.splits)

lemma organize_rows:
  assumes "organize xs rows = Some rows'" "distinct (map fst rows)"
  shows "distinct (map fst rows') \<and>
     fst ` set rows' = fst ` set rows \<union> (\<lambda>s. hd (Seat_seat_label s)) ` set xs \<and>
     (\<forall>k. (case map_of rows' k of None \<Rightarrow> [] | Some ys \<Rightarrow> ys) =
          (case map_of rows k of None \<Rightarrow> [] | Some ys \<Rightarrow> ys) @
          filter (\<lambda>s. hd (Seat_seat_label s) = k) xs)"
  using assms
proof (induction xs arbitrary: rows)
  case Nil
  then show ?case by simp
next
  case (Cons seat rest)
  from Cons.prems(1) obtain c cs where l: "Seat_seat_label seat = c # cs"
    and o: "organize rest (setdefault_append c seat rows) = Some rows'"
    by (auto split: list.splits)
  have d: "distinct (map fst (setdefault_append c seat rows))"
    using Cons.prems(2) by (auto simp: setdefault_append_keys)
  have k: "fst ` set (setdefault_append c seat rows) = insert c (fst ` set rows)"
    using setdefault_append_keys[of c seat rows, THEN arg_cong, of set]
    by (auto split: if_splits)
  from Cons.IH[OF o d] show ?case
    by (auto simp: l k setdefault_append_map_of)
qed

lemma organize_Some:
  "\<forall>s \<in> set xs. Seat_seat_label s \<noteq> [] \<Longrightarrow> \<exists>rows'. organize xs rows = Some rows'"
  by (induction xs arbitrary: rows) (auto split: list.splits)

lemma snd_showtime_detail: "snd (showtime_detail st showtime_id) = st"
  by (simp add: showtime_detail_def split: option.split)

text \<open>
  Claim C7. For an existing showtime, in a reachable store (or in any store where no seat
  has an empty label), the seat-map page is rendered from that showtime's seats fetched in
  ascending order of label, a rearrangement of exactly the seats of the showtime. The rows
  have pairwise different keys, the keys are the leading letters of the fetched labels,
  and the row of each key is the fetched list restricted to the labels that start with
  that key, in the fetched order, hence itself ascending. The store is returned as it was.
\<close>

theorem showtime_detail_rows:
  assumes "get_showtime st showtime_id = Some sh"
    and "reachable gph st \<or> (\<forall>s \<in> set (seats st). Seat_seat_label s \<noteq> [])"
  shows "\<exists>rows. showtime_detail st showtime_id = (Render [] (V_showtime sh rows), st) \<and>
      sorted (map Seat_seat_label (ordered_seats st (Showtime_id sh))) \<and>
      mset (ordered_seats st (Showtime_id sh)) =
        mset (filter (\<lambda>s. Seat_showtime_id s = Showtime_id sh) (seats st)) \<and>
      distinct (map fst rows) \<and>
      fst ` set rows = (\<lambda>s. hd (Seat_seat_label s)) ` set (ordered_seats st (Showtime_id sh)) \<and>
      (\<forall>row \<in> set rows.
         snd row = filter (\<lambda>s. hd (Seat_seat_label s) = fst row) (ordered_seats st (Showtime_id sh)) \<and>
         sorted (map Seat_seat_label (snd row)))"
proof -
  let ?xs = "ordered_seats st (Showtime_id sh)"
  have ne: "\<forall>s \<in> set (seats st). Seat_seat_label s \<noteq> []"
  proof
    fix s
    assume s: "s \<in> set (seats st)"
    from assms(2) show "Seat_seat_label s \<noteq> []"
    proof
      assume "reachable gph st"
      from reachable_seats[OF this] s have "Seat_seat_label s \<in> set grid_labels" by simp
      then show ?thesis by (auto simp: grid_labels_def)
    next
      assume "\<forall>s \<in> set (seats st). Seat_seat_label s \<noteq> []"
      with s show ?thesis by simp
    qed
  qed
  then have "\<forall>s \<in> set ?xs. Seat_seat_label s \<noteq> []"
    by (simp add: ordered_seats_def)
  from organize_Some[OF this] obtain rows where o: "organize ?xs [] = Some rows"
    by blast
  from organize_rows[OF o] have d: "distinct (map fst rows)"
    and k: "fst ` set rows = (\<lambda>s. hd (Seat_seat_label s)) ` set ?xs"
    and r: "\<And>k. (case map_of rows k of None \<Rightarrow> [] | Some ys \<Rightarrow> ys) =
          filter (\<lambda>s. hd (Seat_seat_label s) = k) ?xs"
    by simp_all
  have so: "sorted (map Seat_seat_label ?xs)"
    by (simp add: ordered_seats_def)
  have row: "snd row = filter (\<lambda>s. hd (Seat_seat_label s) = fst row) ?xs \<and>
      sorted (map Seat_seat_label (snd row))" if "row \<in> set rows" for row
  proof -
    from that d have "map_of rows (fst row) = Some (snd row)"
      using map_of_is_SomeI[of rows "fst row" "snd row"] by simp
    with r[of "fst row"] have e: "snd row = filter (\<lambda>s. hd (Seat_seat_label s) = fst row) ?xs"
      by simp
    moreover have "sorted (map Seat_seat_label (filter (\<lambda>s. hd (Seat_seat_label s) = fst row) ?xs))"
      using so by (rule sorted_filter)
    ultimately show ?thesis by simp
  qed
  have "showtime_detail st showtime_id = (Render [] (V_showtime sh rows), st)"
    using assms(1) o by (simp add: showtime_detail_def)
  moreover have "mset ?xs = mset (filter (\<lambda>s. Seat_showtime_id s = Showtime_id sh) (seats st))"
    by (simp add: ordered_seats_def)
  ultimately show ?thesis
    using so d k row by blast
qed

text \<open>A table that holds B1 before A1, A2, A3, and a seat of another showtime.\<close>

theorem showtime_detail_rows_witness:
  "showtime_detail unsorted_store 1 =
     (Render []
        (V_showtime (hd (showtimes unsorted_store))
           [(CHR ''A'',
             [\<lparr>Seat_id = 1, Seat_showtime_id = 1, Seat_seat_label = ''A1'', Seat_is_booked = False\<rparr>,
              \<lparr>Seat_id = 2, Seat_showtime_id = 1, Seat_seat_label = ''A2'', Seat_is_booked = False\<rparr>,
              \<lparr>Seat_id = 3, Seat_showtime_id = 1, Seat_seat_label = ''A3'', Seat_is_booked = True\<rparr>]),
            (CHR ''B'',
             [\<lparr>Seat_id = 4, Seat_showtime_id = 1, Seat_seat_label = ''B1'', Seat_is_booked = False\<rparr>])]),
      unsorted_store)"
proof -
  let ?sh = "hd (showtimes unsorted_store)"
  have sh: "get_showtime unsorted_store 1 = Some ?sh"
    and l: "\<forall>s \<in> set (seats unsorted_store). Seat_seat_label s \<noteq> []"
    and id: "Showtime_id ?sh = 1"
    by code_simp+
  have xs: "ordered_seats unsorted_store 1 =
     [\<lparr>Seat_id = 1, Seat_showtime_id = 1, Seat_seat_label = ''A1'', Seat_is_booked = False\<rparr>,
      \<lparr>Seat_id = 2, Seat_showtime_id = 1, Seat_seat_label = ''A2'', Seat_is_booked = False\<rparr>,
      \<lparr>Seat_id = 3, Seat_showtime_id = 1, Seat_seat_label = ''A3'', Seat_is_booked = True\<rparr>,
      \<lparr>Seat_id = 4, Seat_showtime_id = 1, Seat_seat_label = ''B1'', Seat_is_booked = False\<rparr>]"
    by code_simp
  from showtime_detail_rows[where gph = example_hash, OF sh disjI2[OF l]]
  obtain rows where e: "showtime_detail unsorted_store 1 = (Render [] (V_showtime ?sh rows), unsorted_store)"
    and d: "distinct (map fst rows)"
    and k: "fst ` set rows = (\<lambda>s. hd (Seat_seat_label s)) ` set (ordered_seats unsorted_store 1)"
    and r: "\<forall>row \<in> set rows.
         snd row = filter (\<lambda>s. hd (Seat_seat_label s) = fst row) (ordered_seats unsorted_store 1) \<and>
         sorted (map Seat_seat_label (snd row))"
    unfolding id by blast
  have "showtime_detail unsorted_store 1 =
     (Render []
        (V_showtime ?sh
           [(CHR ''A'',
             [\<lparr>Seat_id = 1, Seat_showtime_id = 1, Seat_seat_label = ''A1'', Seat_is_booked = False\<rparr>,
              \<lparr>Seat_id = 2, Seat_showtime_id = 1, Seat_seat_label = ''A2'', Seat_is_booked = False\<rparr>,
              \<lparr>Seat_id = 3, Seat_showtime_id = 1, Seat_seat_label = ''A3'', Seat_is_booked = True\<rparr>]),
            (CHR ''B'',
             [\<lparr>Seat_id = 4, Seat_showtime_id = 1, Seat_seat_label = ''B1'', Seat_is_booked = False\<rparr>])]),
      unsorted_store)"
    by code_simp
  with e show ?thesis by simp
qed

section \<open>Properties of the booked flag\<close>

lemma seats_seed_movie:
  "\<exists>added. seats (seed_movie now md st) = seats st @ added \<and> (\<forall>s \<in> set added. \<not> Seat_is_booked s)"
  by (cases md) (auto simp: seed_movie_eq seat_block_def)

lemma seats_fold_seed_movie:
  "\<exists>added. seats (fold (\<lambda>km. seed_movie (now_at (fst km)) (snd km)) kms st) = seats st @ added \<and>
     (\<forall>s \<in> set added. \<not> Seat_is_booked s)"
proof (induction kms arbitrary: st)
  case Nil
  show ?case by simp
next
  case (Cons km kms)
  from seats_seed_movie[of "now_at (fst km)" "snd km" st]
  obtain a where a: "seats (seed_movie (now_at (fst km)) (snd km) st) = seats st @ a"
    "\<forall>s \<in> set a. \<not> Seat_is_booked s" by blast
  from Cons.IH[of "seed_movie (now_at (fst km)) (snd km) st"]
  obtain b where b: "seats (fold (\<lambda>km. seed_movie (now_at (fst km)) (snd km)) kms
        (seed_movie (now_at (fst km)) (snd km) st)) =
      seats (seed_movie (now_at (fst km)) (snd km) st) @ b"
    "\<forall>s \<in> set b. \<not> Seat_is_booked s" by blast
  from a b show ?case
    by (intro exI[of _ "a @ b"]) auto
qed

lemma seats_seed_demo_data:
  "\<exists>added. seats (seed_demo_data gph salt now_at st) = seats st @ added \<and>
     (\<forall>s \<in> set added. \<not> Seat_is_booked s)"
proof (cases "movies st = []")
  case False
  then show ?thesis by (simp add: seed_demo_data_nonempty)
next
  case True
  from seats_fold_seed_movie[of now_at "enumerate 0 demo_movies" st]
  show ?thesis
    using True by (auto simp: seed_demo_data_def Let_def split: option.split)
qed

lemma seats_exec:
  assumes "\<not> is_init_db op"
  shows "\<exists>B added. seats (exec gph op st) =
      map (\<lambda>x. if Seat_id x \<in> B then x\<lparr>Seat_is_booked := True\<rparr> else x) (seats st) @ added \<and>
      (\<not> is_booking op \<longrightarrow> B = {}) \<and> (\<forall>s \<in> set added. \<not> Seat_is_booked s)"
proof -
  have same: ?thesis if "seats (exec gph op st) = seats st"
    using that by (intro exI[of _ "{}"] exI[of _ "[]"]) simp
  show ?thesis
  proof (cases op)
    case (Op_book_tickets now sess showtime_id req)
    from book_tickets_effect[of now st sess showtime_id req] show ?thesis
    proof (elim disjE exE conjE)
      assume "snd (book_tickets now st sess showtime_id req) = st"
      with Op_book_tickets show ?thesis by (intro same) simp
    next
      fix u sh selected
      assume "snd (book_tickets now st sess showtime_id req) = booked_store now u sh selected st"
      with Op_book_tickets show ?thesis
        by (intro exI[of _ "Seat_id ` set (matched_seats st (Showtime_id sh) selected)"] exI[of _ "[]"])
           (simp add: booked_store_def)
    qed
  next
    case (Op_register salt req)
    from register_effect[of gph salt st req] Op_register show ?thesis
      by (intro same) auto
  next
    case (Op_seed_demo_data salt now_at)
    from seats_seed_demo_data[of gph salt now_at st] Op_seed_demo_data show ?thesis
      by (auto intro!: exI[of _ "{}"])
  next
    case (Op_init_db salt now_at)
    with assms show ?thesis by simp
  qed (auto intro!: same simp: home_def movie_detail_def showtime_detail_def my_bookings_def
        split: option.split)
qed

lemma find_marked:
  "find (\<lambda>s. Seat_id s = i) (map (\<lambda>x. if Seat_id x \<in> B then x\<lparr>Seat_is_booked := True\<rparr> else x) xs @ added)
     = (case find (\<lambda>s. Seat_id s = i) xs of
          None \<Rightarrow> find (\<lambda>s. Seat_id s = i) added
        | Some x \<Rightarrow> Some (if i \<in> B then x\<lparr>Seat_is_booked := True\<rparr> else x))"
  by (induction xs) auto

text \<open>
  Claim C3, as the code has it. Every operation other than the \<open>init-db\<close> command keeps
  each row of the seat table in its place with its key, showtime and label: the table
  afterwards is the old one with the flag set on some rows, followed by new rows, which
  are unbooked. Only a booking sets any flag. So a seat found by its key is found again
  afterwards, a booked one is still booked, and its flag differs only after a booking,
  where it went from false to true. The \<open>init-db\<close> command drops every table and seeds
  the empty database: what it leaves does not depend on the store before, and all its
  seats are unbooked.
\<close>

theorem booked_flag_only_set_by_booking:
  "(\<not> is_init_db op \<and> seat_booked st i = Some b \<longrightarrow>
      (\<exists>b'. seat_booked (exec gph op st) i = Some b' \<and> (b \<longrightarrow> b') \<and> (b' \<noteq> b \<longrightarrow> is_booking op))) \<and>
   (\<not> is_init_db op \<longrightarrow>
      (\<exists>B added. seats (exec gph op st) =
          map (\<lambda>x. if Seat_id x \<in> B then x\<lparr>Seat_is_booked := True\<rparr> else x) (seats st) @ added \<and>
          (\<not> is_booking op \<longrightarrow> B = {}) \<and> (\<forall>s \<in> set added. \<not> Seat_is_booked s))) \<and>
   (is_init_db op \<longrightarrow>
      exec gph op st = exec gph op empty_store \<and>
      (\<forall>s \<in> set (seats (exec gph op st)). \<not> Seat_is_booked s))"
proof (intro conjI impI)
  assume a: "\<not> is_init_db op \<and> seat_booked st i = Some b"
  from seats_exec[of op gph st] a obtain B added where
    e: "seats (exec gph op st) =
          map (\<lambda>x. if Seat_id x \<in> B then x\<lparr>Seat_is_booked := True\<rparr> else x) (seats st) @ added"
    and n: "\<not> is_booking op \<longrightarrow> B = {}"
    by blast
  from a obtain x where x: "find (\<lambda>s. Seat_id s = i) (seats st) = Some x" "Seat_is_booked x = b"
    by (auto simp: seat_booked_def)
  show "\<exists>b'. seat_booked (exec gph op st) i = Some b' \<and> (b \<longrightarrow> b') \<and> (b' \<noteq> b \<longrightarrow> is_booking op)"
    using x n by (auto simp: seat_booked_def e find_marked)
next
  assume "\<not> is_init_db op"
  then show "\<exists>B added. seats (exec gph op st) =
          map (\<lambda>x. if Seat_id x \<in> B then x\<lparr>Seat_is_booked := True\<rparr> else x) (seats st) @ added \<and>
          (\<not> is_booking op \<longrightarrow> B = {}) \<and> (\<forall>s \<in> set added. \<not> Seat_is_booked s)"
    by (rule seats_exec)
next
  assume i: "is_init_db op"
  then obtain salt now_at where op: "op = Op_init_db salt now_at"
    by (cases op) simp_all
  show "exec gph op st = exec gph op empty_store"
    by (simp add: op init_db_command_def)
  from seats_seed_demo_data[of gph salt now_at empty_store]
  show "\<forall>s \<in> set (seats (exec gph op st)). \<not> Seat_is_booked s"
    by (auto simp: op init_db_command_def empty_store_def)
qed

text \<open>
  In the example store the booked seat 3 stays booked when A1 and A2 are booked, and the
  free seat 1 stays free when a user registers.
\<close>

theorem booked_flag_only_set_by_booking_witness:
  "seat_booked example_store 3 = Some True \<and>
   seat_booked (exec example_hash (Op_book_tickets 0 (Some 1) 1 (seats_request [''A1'', ''A2'']))
      example_store) 3 = Some True \<and>
   seat_booked example_store 1 = Some False \<and>
   seat_booked (exec example_hash (Op_register ''pepper''
      (account_request ''Bob'' ''bob@example.com'' ''hunter2'')) example_store) 1 = Some False"
proof -
  let ?book = "Op_book_tickets 0 (Some 1) 1 (seats_request [''A1'', ''A2''])"
  let ?reg = "Op_register ''pepper'' (account_request ''Bob'' ''bob@example.com'' ''hunter2'')"
  have b: "\<not> is_init_db ?book" "\<not> is_init_db ?reg" "\<not> is_booking ?reg" by simp_all
  have s: "seat_booked example_store 3 = Some True" "seat_booked example_store 1 = Some False"
    by code_simp+
  from booked_flag_only_set_by_booking[of ?book example_store 3 True example_hash] b(1) s(1)
  have 1: "seat_booked (exec example_hash ?book example_store) 3 = Some True"
    by auto
  from booked_flag_only_set_by_booking[of ?reg example_store 1 False example_hash] b(2,3) s(2)
  have 2: "seat_booked (exec example_hash ?reg example_store) 1 = Some False"
    by auto
  from s 1 2 show ?thesis by blast
qed

lemma seat_block_Cons:
  "seat_block sid m =
     \<lparr>Seat_id = m, Seat_showtime_id = sid, Seat_seat_label = ''A1'', Seat_is_booked = False\<rparr> #
     tl (seat_block sid m)"
  by (simp add: seat_block_def grid_labels_def)

lemma seeded_seats_Cons:
  "\<exists>rest. seeded_seats =
     \<lparr>Seat_id = 1, Seat_showtime_id = 1, Seat_seat_label = ''A1'', Seat_is_booked = False\<rparr> # rest"
proof -
  let ?R = "concat (map (\<lambda>k. seat_block (k + 1) (40 * k + 1)) [1, 2, 3, 4, 5, 6, 7, 8])"
  have "seeded_seats = seat_block 1 1 @ ?R"
    by (simp add: seeded_seats_def)
  also have "seat_block 1 1 @ ?R =
      (\<lparr>Seat_id = 1, Seat_showtime_id = 1, Seat_seat_label = ''A1'', Seat_is_booked = False\<rparr> #
       tl (seat_block 1 1)) @ ?R"
    by (rule arg_cong[where f = "\<lambda>x. x @ ?R"]) (rule seat_block_Cons)
  finally have "seeded_seats =
      \<lparr>Seat_id = 1, Seat_showtime_id = 1, Seat_seat_label = ''A1'', Seat_is_booked = False\<rparr> #
      (tl (seat_block 1 1) @ ?R)"
    by (simp only: append_Cons)
  then show ?thesis by (rule exI)
qed

lemma seat_booked_booked_store:
  assumes "find (\<lambda>s. Seat_id s = i) (seats st) = Some x"
    and "x \<in> set (matched_seats st (Showtime_id sh) selected)"
  shows "seat_booked (booked_store now u sh selected st) i = Some True"
proof -
  from assms(1) have "Seat_id x = i" by (auto simp: find_Some_iff)
  with assms(2) have "i \<in> Seat_id ` set (matched_seats st (Showtime_id sh) selected)" by auto
  with assms(1) find_marked[of i "Seat_id ` set (matched_seats st (Showtime_id sh) selected)" "seats st" "[]"]
  show ?thesis
    by (simp add: seat_booked_def booked_store_def)
qed

text \<open>
  After seeding, seat 1 (A1 of showtime 1) is booked; after \<open>init-db\<close> the seat with that
  key, showtime and label is unbooked.
\<close>

theorem init_db_unbooks_counterexample:
  "seat_booked
     (exec example_hash (Op_book_tickets 0 (Some 1) 1 (seats_request [''A1'', ''A2'']))
        (exec example_hash (Op_seed_demo_data ''s1'' half_past) empty_store)) 1 = Some True \<and>
   seat_booked
     (exec example_hash (Op_init_db ''s2'' half_past)
        (exec example_hash (Op_book_tickets 0 (Some 1) 1 (seats_request [''A1'', ''A2'']))
           (exec example_hash (Op_seed_demo_data ''s1'' half_past) empty_store))) 1 = Some False"
proof -
  let ?row = "\<lparr>Seat_id = 1, Seat_showtime_id = 1, Seat_seat_label = ''A1'', Seat_is_booked = False\<rparr>"
  let ?sh = "hd (seeded_showtimes half_past)"
  from seeded_seats_Cons obtain rest where r: "seeded_seats = ?row # rest" by blast
  have f: "find (\<lambda>s. Seat_id s = 1) (seats seeded_store) = Some ?row"
    by (simp add: seeded_store_eq r)
  have m: "?row \<in> set (matched_seats seeded_store (Showtime_id ?sh) [''A1'', ''A2''])"
    unfolding seeded_session(3) matched_seats_seeded by simp
  from seat_booked_booked_store[OF f m]
  have "seat_booked (booked_store 0 (demo_user example_hash ''s1'' 1) ?sh [''A1'', ''A2''] seeded_store) 1
      = Some True" .
  with booked_seeded_store have 1: "seat_booked
     (exec example_hash (Op_book_tickets 0 (Some 1) 1 (seats_request [''A1'', ''A2'']))
        (exec example_hash (Op_seed_demo_data ''s1'' half_past) empty_store)) 1 = Some True"
    by (simp add: seeded_store_def)
  have e: "movies empty_store = []" "showtimes empty_store = []" "seats empty_store = []"
    by (simp_all add: empty_store_def)
  have "seats (seed_demo_data example_hash ''s2'' half_past empty_store) = ?row # rest"
    by (simp add: seed_demo_data_empty_catalogue[OF e] r)
  then have 2: "seat_booked (seed_demo_data example_hash ''s2'' half_past empty_store) 1 = Some False"
    by (simp add: seat_booked_def)
  from 1 2 show ?thesis by (simp add: init_db_command_def)
qed

section \<open>A successful booking\<close>

lemma reachable_prices:
  assumes "reachable gph st"
  shows "\<forall>sh \<in> set (showtimes st). Showtime_ticket_price sh \<in> {10, 12, 14}"
  using assms
proof (induction rule: reachable_effects)
  case empty
  show ?case by (simp add: empty_store_def)
next
  case (book st now u sh selected)
  then show ?case by (simp add: booked_store_def)
next
  case (register st salt name email password)
  then show ?case by simp
next
  case (seed st salt now_at)
  then show ?case by (simp add: seed_demo_data_empty_catalogue seeded_showtimes_def)
qed

lemma get_showtime_mem: "get_showtime st sid = Some sh \<Longrightarrow> sh \<in> set (showtimes st)"
  by (auto simp: get_showtime_def find_Some_iff)

lemma reachable_matched_le_40:
  assumes "reachable gph st"
  shows "length (matched_seats st sid selected) \<le> 40"
proof -
  from reachable_seats[OF assms]
  have k: "seat_keys_distinct st" and g: "\<forall>s \<in> set (seats st). Seat_seat_label s \<in> set grid_labels"
    by simp_all
  have "length (matched_seats st sid selected) =
      card (set (map Seat_seat_label (matched_seats st sid selected)))"
    using matched_labels_distinct[OF k, of sid selected] by (simp add: distinct_card del: set_map)
  also have "\<dots> \<le> card (set grid_labels)"
    using g by (intro card_mono) (auto simp: matched_seats_def)
  also have "\<dots> = 40"
    using distinct_grid_labels by (simp add: distinct_card length_grid_labels)
  finally show ?thesis .
qed

text \<open>
  Claim C2. In a store the application can reach, when a logged-in user's request on an
  existing showtime names a non-empty list of labels, as many seats match as labels were
  sent and none of them is booked, the request succeeds: exactly one booking row is
  appended, for that user and showtime, whose total price is the showtime's ticket price
  times the number of labels and whose label column is the requested labels joined by
  commas; the matched seats are afterwards exactly the matched seats of before with their
  flag set; users, movies and showtimes stay as they were. The stored state is the old
  one at every point of the handler before the commit and the new one after it: seats and
  booking are written by one commit. The ticket price is 10, 12 or 14 and at most forty
  labels can match, so the total is a whole number up to 560: on such values the product
  of two doubles that the handler computes is the exact product.
\<close>

theorem book_tickets_success:
  assumes "reachable gph st"
    and "current_user st sess = Some u" and "get_showtime st showtime_id = Some sh"
    and "form_getlist (req_form req) ''seats'' = selected" and "selected \<noteq> []"
    and "length (matched_seats st (Showtime_id sh) selected) = length selected"
    and "\<forall>x \<in> set (matched_seats st (Showtime_id sh) selected). \<not> Seat_is_booked x"
  shows "fst (book_tickets now st sess showtime_id req) =
           Redirect [(''Booking confirmed for seats: '' @ join '', '' selected, ''success'')]
             EP_my_bookings \<and>
         bookings (snd (book_tickets now st sess showtime_id req)) =
           bookings st @
             [\<lparr>Booking_id = next_id (map Booking_id (bookings st)),
               Booking_user_id = User_id u, Booking_showtime_id = Showtime_id sh,
               Booking_seat_labels = join '','' selected,
               Booking_total_price = Showtime_ticket_price sh * real (length selected),
               Booking_booked_at = now\<rparr>] \<and>
         Showtime_ticket_price sh \<in> {10, 12, 14} \<and> length selected \<le> 40 \<and>
         (\<exists>k. k \<le> 560 \<and> Showtime_ticket_price sh * real (length selected) = real k) \<and>
         seats (snd (book_tickets now st sess showtime_id req)) =
           map (\<lambda>x. if Seat_id x \<in> Seat_id ` set (matched_seats st (Showtime_id sh) selected)
                    then x\<lparr>Seat_is_booked := True\<rparr> else x) (seats st) \<and>
         matched_seats (snd (book_tickets now st sess showtime_id req)) (Showtime_id sh) selected =
           map (\<lambda>x. x\<lparr>Seat_is_booked := True\<rparr>) (matched_seats st (Showtime_id sh) selected) \<and>
         users (snd (book_tickets now st sess showtime_id req)) = users st \<and>
         movies (snd (book_tickets now st sess showtime_id req)) = movies st \<and>
         showtimes (snd (book_tickets now st sess showtime_id req)) = showtimes st \<and>
         (\<forall>t \<in> set (butlast (run_trace
                (book_statements now u sh selected (matched_seats st (Showtime_id sh) selected))
                (begin_session st))). committed t = st) \<and>
         committed (last (run_trace
                (book_statements now u sh selected (matched_seats st (Showtime_id sh) selected))
                (begin_session st))) = snd (book_tickets now st sess showtime_id req)"
proof -
  from reachable_prices[OF assms(1)] get_showtime_mem[OF assms(3)]
  have p: "Showtime_ticket_price sh \<in> {10, 12, 14}" by blast
  from reachable_matched_le_40[OF assms(1), of "Showtime_id sh" selected] assms(6)
  have n: "length selected \<le> 40" by simp
  have "\<exists>k. k \<le> 560 \<and> Showtime_ticket_price sh * real (length selected) = real k"
  proof -
    from p consider "Showtime_ticket_price sh = 10" | "Showtime_ticket_price sh = 12"
      | "Showtime_ticket_price sh = 14" by auto
    then show ?thesis
    proof cases
      case 1
      with n show ?thesis by (intro exI[of _ "10 * length selected"]) simp
    next
      case 2
      with n show ?thesis by (intro exI[of _ "12 * length selected"]) simp
    next
      case 3
      with n show ?thesis by (intro exI[of _ "14 * length selected"]) simp
    qed
  qed
  with p n book_tickets_accept_effects[OF assms(2-7), of now] show ?thesis
    by simp
qed

text \<open>
  On the freshly seeded database the demo user books A1 and A2 of the first showtime,
  whose price is 10: the total is 20 and both seats are marked.
\<close>

theorem book_tickets_success_witness:
  "fst (book_tickets 0 seeded_store (Some 1) 1 (seats_request [''A1'', ''A2''])) =
     Redirect [(''Booking confirmed for seats: A1, A2'', ''success'')] EP_my_bookings \<and>
   bookings (snd (book_tickets 0 seeded_store (Some 1) 1 (seats_request [''A1'', ''A2'']))) =
     [\<lparr>Booking_id = 1, Booking_user_id = 1, Booking_showtime_id = 1,
       Booking_seat_labels = ''A1,A2'', Booking_total_price = 20, Booking_booked_at = 0\<rparr>] \<and>
   matched_seats (snd (book_tickets 0 seeded_store (Some 1) 1 (seats_request [''A1'', ''A2''])))
       1 [''A1'', ''A2''] =
     [\<lparr>Seat_id = 1, Seat_showtime_id = 1, Seat_seat_label = ''A1'', Seat_is_booked = True\<rparr>,
      \<lparr>Seat_id = 2, Seat_showtime_id = 1, Seat_seat_label = ''A2'', Seat_is_booked = True\<rparr>]"
proof -
  let ?u = "demo_user example_hash ''s1'' 1" and ?sh = "hd (seeded_showtimes half_past)"
  have r: "reachable example_hash seeded_store"
    unfolding seeded_store_def
    using reachable_exec[OF reachable_empty, of example_hash "Op_seed_demo_data ''s1'' half_past"]
    by simp
  have ne: "[''A1'', ''A2''] \<noteq> ([] :: string list)" by simp
  have l: "length (matched_seats seeded_store (Showtime_id ?sh) [''A1'', ''A2'']) = length [''A1'', ''A2'']"
    unfolding seeded_session(3) matched_seats_seeded by simp
  have n: "\<forall>x \<in> set (matched_seats seeded_store (Showtime_id ?sh) [''A1'', ''A2'']). \<not> Seat_is_booked x"
    unfolding seeded_session(3) matched_seats_seeded by simp
  have v: "User_id ?u = 1" "Showtime_ticket_price ?sh = 10" "bookings seeded_store = []"
    by (simp_all add: demo_user_def seeded_showtimes_def seeded_store_eq)
  have j: "join '','' [''A1'', ''A2''] = ''A1,A2''" "join '', '' [''A1'', ''A2''] = ''A1, A2''"
    by simp_all
  note t = book_tickets_success[OF r seeded_session(1,2) form_getlist_seats_request ne l n, of 0]
  from t[THEN conjunct1]
  have 1: "fst (book_tickets 0 seeded_store (Some 1) 1 (seats_request [''A1'', ''A2''])) =
     Redirect [(''Booking confirmed for seats: A1, A2'', ''success'')] EP_my_bookings"
    by simp
  from t[THEN conjunct2, THEN conjunct1] have "bookings (snd (book_tickets 0 seeded_store (Some 1) 1 (seats_request [''A1'', ''A2'']))) =
      bookings seeded_store @
        [\<lparr>Booking_id = next_id (map Booking_id (bookings seeded_store)),
          Booking_user_id = User_id ?u, Booking_showtime_id = Showtime_id ?sh,
          Booking_seat_labels = join '','' [''A1'', ''A2''],
          Booking_total_price = Showtime_ticket_price ?sh * real (length [''A1'', ''A2'']),
          Booking_booked_at = 0\<rparr>]" .
  then have 2: "bookings (snd (book_tickets 0 seeded_store (Some 1) 1 (seats_request [''A1'', ''A2'']))) =
     [\<lparr>Booking_id = 1, Booking_user_id = 1, Booking_showtime_id = 1,
       Booking_seat_labels = ''A1,A2'', Booking_total_price = 20, Booking_booked_at = 0\<rparr>]"
    unfolding v seeded_session(3) j by (simp add: next_id_Nil)
  from t[THEN conjunct2, THEN conjunct2, THEN conjunct2, THEN conjunct2, THEN conjunct2,
      THEN conjunct2, THEN conjunct1]
  have "matched_seats (snd (book_tickets 0 seeded_store (Some 1) 1 (seats_request [''A1'', ''A2''])))
       (Showtime_id ?sh) [''A1'', ''A2''] =
     map (\<lambda>x. x\<lparr>Seat_is_booked := True\<rparr>) (matched_seats seeded_store (Showtime_id ?sh) [''A1'', ''A2''])" .
  then have 3: "matched_seats (snd (book_tickets 0 seeded_store (Some 1) 1 (seats_request [''A1'', ''A2''])))
       1 [''A1'', ''A2''] =
     [\<lparr>Seat_id = 1, Seat_showtime_id = 1, Seat_seat_label = ''A1'', Seat_is_booked = True\<rparr>,
      \<lparr>Seat_id = 2, Seat_showtime_id = 1, Seat_seat_label = ''A2'', Seat_is_booked = True\<rparr>]"
    unfolding seeded_session(3) matched_seats_seeded by simp
  from 1 2 3 show ?thesis by blast
qed

end
